theory Spec2Isabelle
  imports Main "HOL-Library.Word"
begin

unbundle bit_operations_syntax

section \<open>JavaScript values used by the plugin\<close>

text \<open>
  A JavaScript string is modelled as a \<^typ>\<open>string\<close>; each \<^typ>\<open>char\<close> stands for the
  code unit of the same number (code units 0 to 255).  The numbers the decoder computes
  are either \<open>NaN\<close> or integers, so a number is a \<open>jsnum\<close>; the area index, the zone
  number and the bank selector, which the platform obtains with \<open>Number(...)\<close> from the
  configuration, are integers (\<^typ>\<open>int\<close>).  Negative zero is identified with zero: the
  code only feeds these numbers to \<open>&\<close> and \<open>!== 0\<close>, which do not tell them apart.
\<close>

datatype jsnum = NaN | Num int

text \<open>\<open>ToInt32\<close>: \<open>NaN\<close> becomes 0, an integer is reduced modulo \<open>2 ^ 32\<close>.\<close>

fun toInt32 :: "jsnum \<Rightarrow> 32 word" where
  "toInt32 NaN = 0"
| "toInt32 (Num k) = word_of_int k"

text \<open>The remainder operator \<open>%\<close> on integers: the sign follows the dividend.\<close>

definition js_rem :: "int \<Rightarrow> int \<Rightarrow> int" where
  "js_rem a b = sgn a * (\<bar>a\<bar> mod \<bar>b\<bar>)"

text \<open>\<open>x << n\<close> on 32-bit integers: only the low five bits of the count are used.\<close>

definition js_shl :: "32 word \<Rightarrow> int \<Rightarrow> 32 word" where
  "js_shl x n = push_bit (nat (n mod 32)) x"

text \<open>
  \<open>String.prototype.substring(start, end)\<close> for integer arguments: both are clamped to
  \<open>[0, length]\<close> and swapped when out of order.
\<close>

definition substring :: "string \<Rightarrow> int \<Rightarrow> int \<Rightarrow> string" where
  "substring s start end' =
     (let len = int (length s);
          finalStart = min (max start 0) len;
          finalEnd = min (max end' 0) len;
          from = min finalStart finalEnd;
          to = max finalStart finalEnd
      in take (nat (to - from)) (drop (nat from) s))"

text \<open>
  \<open>parseInt(s, 16)\<close>, following ECMAScript: leading white space is trimmed, a sign is
  read, a \<open>0x\<close> or \<open>0X\<close> prefix is dropped, and the longest run of hexadecimal digits is
  the value; no digit at all gives \<open>NaN\<close>.
\<close>

definition isStrWhiteSpaceChar :: "char \<Rightarrow> bool" where
  "isStrWhiteSpaceChar c = ((of_char c :: nat) \<in> {9, 10, 11, 12, 13, 32, 160})"

definition hexDigitValue :: "char \<Rightarrow> int option" where
  "hexDigitValue c =
     (let n = (of_char c :: nat) in
      if 48 \<le> n \<and> n \<le> 57 then Some (int n - 48)
      else if 97 \<le> n \<and> n \<le> 102 then Some (int n - 87)
      else if 65 \<le> n \<and> n \<le> 70 then Some (int n - 55)
      else None)"

definition isHexDigit :: "char \<Rightarrow> bool" where
  "isHexDigit c = (hexDigitValue c \<noteq> None)"

definition parseInt16 :: "string \<Rightarrow> jsnum" where
  "parseInt16 inputString =
     (let S = dropWhile isStrWhiteSpaceChar inputString;
          sign = (if S \<noteq> [] \<and> hd S = CHR ''-'' then - 1 else 1);
          S1 = (if S \<noteq> [] \<and> (hd S = CHR ''+'' \<or> hd S = CHR ''-'') then tl S else S);
          S2 = (if 2 \<le> length S1 \<and> (take 2 S1 = ''0x'' \<or> take 2 S1 = ''0X'')
                then drop 2 S1 else S1);
          Z = takeWhile isHexDigit S2
      in if Z = [] then NaN
         else Num (sign * foldl (\<lambda>acc c. 16 * acc + the (hexDigitValue c)) 0 Z))"

section \<open>The bitfield decoder (XRApi)\<close>

text \<open>
  The values the code handles besides numbers: a parsed JSON reply and its properties
  (\<open>a.bankstates\<close> is \<open>undefined\<close>, a string, or some other JSON value).  \<open>JNumber\<close>
  carries integers only; an object is the list of its own properties.
\<close>

datatype jsvalue =
    JUndefined
  | JNull
  | JBool bool
  | JNumber int
  | JString string
  | JArray "jsvalue list"
  | JObject "(string \<times> jsvalue) list"

text \<open>Truthiness, as \<open>!x\<close> and \<open>if (x)\<close> read a value.\<close>

fun truthy :: "jsvalue \<Rightarrow> bool" where
  "truthy JUndefined = False"
| "truthy JNull = False"
| "truthy (JBool b) = b"
| "truthy (JNumber k) = (k \<noteq> 0)"
| "truthy (JString s) = (s \<noteq> [])"
| "truthy (JArray xs) = True"
| "truthy (JObject fs) = True"

text \<open>
  What the code throws: a \<open>TypeError\<close> of the runtime, the errors \<open>baseUrl\<close>, \<open>login\<close>
  and \<open>request\<close> construct (the path and the snippet or payload they put into the
  message are kept as arguments), and a failure of the transport.
\<close>

datatype error =
    TypeError
  | HostUndefined
  | LoginNotAccepted
  | LoginNoSess
  | InvalidJSON string string
  | PanelErrorResponse string jsvalue
  | TransportError

text \<open>\<open>_hexByteAt(bankstates, startIndex)\<close> for a string \<open>bankstates\<close>.\<close>

definition hexByteAt :: "string \<Rightarrow> int \<Rightarrow> jsnum" where
  "hexByteAt bankstates startIndex =
     (let hex = substring bankstates startIndex (startIndex + 2) in
      if hex = [] \<or> length hex \<noteq> 2 then Num 0 else parseInt16 hex)"

text \<open>
  \<open>decodeAreaModeFromBankstates(bankstates, areaIndex)\<close>.  A falsy \<open>bankstates\<close> gives
  \<open>'UNKNOWN'\<close>; a truthy value that is not a string has no \<open>substring\<close> method, so the
  first \<open>_hexByteAt\<close> raises a \<open>TypeError\<close>.
\<close>

definition decodeAreaModeFromBankstates :: "jsvalue \<Rightarrow> int \<Rightarrow> error + string" where
  "decodeAreaModeFromBankstates bankstates areaIndex =
     (if \<not> truthy bankstates then Inr ''UNKNOWN''
      else case bankstates of
        JString b \<Rightarrow>
          (let i = areaIndex;
               mask = js_shl 1 (js_rem i 8);
               stpartial = hexByteAt b 4;
               starm = hexByteAt b 6;
               stexit1 = hexByteAt b 8;
               stexit2 = hexByteAt b 10;
               isExit = (toInt32 stexit1 AND mask \<noteq> 0 \<or> toInt32 stexit2 AND mask \<noteq> 0);
               isAway = (toInt32 starm AND mask \<noteq> 0);
               isStay = (toInt32 stpartial AND mask \<noteq> 0)
           in if isAway then Inr ''AWAY''
              else if isStay then Inr ''STAY''
              else if \<not> isExit then Inr ''DISARMED''
              else Inr ''DISARMED'')
      | _ \<Rightarrow> Inl TypeError)"

definition getZoneStateBanks :: "jsvalue \<Rightarrow> jsvalue" where
  "getZoneStateBanks bankstates = bankstates"

text \<open>
  \<open>isZoneOpenFromBanks(bankstates, zoneNumber, zoneOpenBank, zoneOpenWhenSet)\<close>;
  \<open>Math.floor(zi / 8)\<close> on an integer is \<open>div\<close>.
\<close>

definition isZoneOpenFromBanks :: "jsvalue \<Rightarrow> int \<Rightarrow> int \<Rightarrow> bool \<Rightarrow> error + bool" where
  "isZoneOpenFromBanks bankstates zoneNumber zoneOpenBank zoneOpenWhenSet =
     (if \<not> truthy bankstates then Inr False
      else case bankstates of
        JString b \<Rightarrow>
          (let z = zoneNumber;
               zi = z - 1;
               mask = js_shl 1 (js_rem zi 8);
               byteStart = 2 * (zi div 8) + zoneOpenBank * 0;
               byte = hexByteAt b byteStart;
               bitSet = (toInt32 byte AND mask \<noteq> 0)
           in Inr (if zoneOpenWhenSet then bitSet else \<not> bitSet))
      | _ \<Rightarrow> Inl TypeError)"

section \<open>What the decoder is measured against\<close>

text \<open>
  The slice of two characters at \<open>off\<close> is a valid hexadecimal byte when it lies inside the
  blob and both characters are hexadecimal digits; its value is then sixteen times the
  first digit plus the second.
\<close>

definition validHexByte :: "string \<Rightarrow> int \<Rightarrow> bool" where
  "validHexByte blob off =
     (0 \<le> off \<and> off + 2 \<le> int (length blob)
      \<and> isHexDigit (blob ! nat off) \<and> isHexDigit (blob ! (nat off + 1)))"

definition hexByteValue :: "string \<Rightarrow> int \<Rightarrow> int" where
  "hexByteValue blob off =
     16 * the (hexDigitValue (blob ! nat off)) + the (hexDigitValue (blob ! (nat off + 1)))"

definition outOfRange :: "string \<Rightarrow> int \<Rightarrow> bool" where
  "outOfRange blob off = (off < 0 \<or> int (length blob) < off + 2)"

text \<open>
  The bit that \<open>mask = 1 << (areaIndex % 8)\<close> selects in the byte read at \<open>off\<close>, as the
  decoder tests it.
\<close>

definition maskedBit :: "string \<Rightarrow> int \<Rightarrow> int \<Rightarrow> bool" where
  "maskedBit blob off areaIndex =
     (toInt32 (hexByteAt blob off) AND js_shl 1 (js_rem areaIndex 8) \<noteq> 0)"

text \<open>
  A blob that covers the arming bytes and consists of hexadecimal digits only, and the
  arithmetic value of its \<open>k\<close>-th byte.
\<close>

definition wellFormedBlob :: "string \<Rightarrow> bool" where
  "wellFormedBlob blob = (12 \<le> length blob \<and> list_all isHexDigit blob)"

definition blobByte :: "string \<Rightarrow> nat \<Rightarrow> int" where
  "blobByte blob k =
     16 * the (hexDigitValue (blob ! (2 * k))) + the (hexDigitValue (blob ! (2 * k + 1)))"

section \<open>The protocol client (XRApi), one call at a time\<close>

subsection \<open>String functions of the runtime\<close>

text \<open>
  \<open>toLowerCase\<close> on code units below 256, \<open>includes\<close>, \<open>encodeURIComponent\<close> (the code
  units from 128 on take two bytes of UTF-8) and the decimal form of an integer.
\<close>

definition toLowerChar :: "char \<Rightarrow> char" where
  "toLowerChar c =
     (let n = (of_char c :: nat) in
      if (65 \<le> n \<and> n \<le> 90) \<or> (192 \<le> n \<and> n \<le> 222 \<and> n \<noteq> 215)
      then char_of (n + 32) else c)"

definition toLowerCase :: "string \<Rightarrow> string" where
  "toLowerCase s = map toLowerChar s"

fun startsWith :: "string \<Rightarrow> string \<Rightarrow> bool" where
  "startsWith s [] = True"
| "startsWith [] (p # ps) = False"
| "startsWith (c # cs) (p # ps) = (c = p \<and> startsWith cs ps)"

fun includesStr :: "string \<Rightarrow> string \<Rightarrow> bool" where
  "includesStr [] sub = (sub = [])"
| "includesStr (c # cs) sub = (startsWith (c # cs) sub \<or> includesStr cs sub)"

definition hexChar :: "nat \<Rightarrow> char" where
  "hexChar d = ''0123456789ABCDEF'' ! (d mod 16)"

definition percentByte :: "nat \<Rightarrow> string" where
  "percentByte b = [CHR ''%'', hexChar (b div 16), hexChar b]"

definition isUnreserved :: "char \<Rightarrow> bool" where
  "isUnreserved c =
     (let n = (of_char c :: nat) in
      (48 \<le> n \<and> n \<le> 57) \<or> (65 \<le> n \<and> n \<le> 90) \<or> (97 \<le> n \<and> n \<le> 122)
      \<or> c \<in> set ''-_.!~*()'' \<or> n = 39)"

definition encodeURIComponent :: "string \<Rightarrow> string" where
  "encodeURIComponent s =
     concat (map (\<lambda>c. let n = (of_char c :: nat) in
                       if isUnreserved c then [c]
                       else if n < 128 then percentByte n
                       else percentByte (192 + n div 64) @ percentByte (128 + n mod 64)) s)"

fun digits :: "nat \<Rightarrow> string" where
  "digits n = (if n < 10 then [hexChar n] else digits (n div 10) @ [hexChar (n mod 10)])"

definition numberToString :: "int \<Rightarrow> string" where
  "numberToString k = (if k < 0 then CHR ''-'' # digits (nat (- k)) else digits (nat k))"

subsection \<open>Recognising the login page and the session token\<close>

definition looksLikeLoginHtml :: "string \<Rightarrow> bool" where
  "looksLikeLoginHtml text =
     (if text = [] then False
      else let t = toLowerCase text in
        includesStr t ''xgen :: secure network'' \<or>
        includesStr t ''/login.htm'' \<or>
        includesStr t ''lgname'' \<or>
        includesStr t ''lgpin'')"

text \<open>
  The two regular expressions of \<open>extractSessFromHtml\<close>, both with the flag \<open>i\<close>.  Every
  \<open>\s*\<close> is followed by a character that is not white space and the optional quote by a
  hexadecimal digit, so a match at a given position is found without backtracking:
  \<open>literal\<close> reads a literal in either case (its pattern is written in lower case),
  \<open>skipSpace\<close> reads \<open>\s*\<close>, \<open>hex16\<close> reads the group \<open>([A-F0-9]{16})\<close>.  \<open>firstMatch\<close>
  tries the positions from left to right, as \<open>String.prototype.match\<close> does.
\<close>

definition literal :: "string \<Rightarrow> string \<Rightarrow> string option" where
  "literal pat s =
     (if length pat \<le> length s \<and> toLowerCase (take (length pat) s) = pat
      then Some (drop (length pat) s) else None)"

definition skipSpace :: "string \<Rightarrow> string" where
  "skipSpace s = dropWhile isStrWhiteSpaceChar s"

definition hex16 :: "string \<Rightarrow> string option" where
  "hex16 s = (if 16 \<le> length s \<and> list_all isHexDigit (take 16 s) then Some (take 16 s) else None)"

definition sessPattern1 :: "string \<Rightarrow> string option" where
  "sessPattern1 s =
     Option.bind (literal ''getsession()'' s) (\<lambda>r1.
     Option.bind (literal ''{'' (skipSpace r1)) (\<lambda>r2.
     Option.bind (literal ''return'' (skipSpace r2)) (\<lambda>r3.
     Option.bind (literal [CHR 0x22] (skipSpace r3)) (\<lambda>r4.
     Option.bind (hex16 r4) (\<lambda>group1.
     Option.bind (literal [CHR 0x22] (drop 16 r4)) (\<lambda>r5.
     Option.bind (literal '';'' (skipSpace r5)) (\<lambda>r6.
     Option.bind (literal ''}'' (skipSpace r6)) (\<lambda>r7. Some group1))))))))"

definition sessPattern2 :: "string \<Rightarrow> string option" where
  "sessPattern2 s =
     Option.bind (literal ''sess'' s) (\<lambda>r1.
     Option.bind (literal ''='' (skipSpace r1)) (\<lambda>r2.
       let r3 = skipSpace r2;
           r4 = (case literal [CHR 0x22] r3 of Some r \<Rightarrow> r | None \<Rightarrow> r3)
       in hex16 r4))"

fun firstMatch :: "(string \<Rightarrow> string option) \<Rightarrow> string \<Rightarrow> string option" where
  "firstMatch p [] = p []"
| "firstMatch p (c # cs) = (case p (c # cs) of Some r \<Rightarrow> Some r | None \<Rightarrow> firstMatch p cs)"

definition extractSessFromHtml :: "string \<Rightarrow> string option" where
  "extractSessFromHtml html =
     (if html = [] then None
      else case firstMatch sessPattern1 html of
        Some m1 \<Rightarrow> Some m1
      | None \<Rightarrow> (case firstMatch sessPattern2 html of
                   Some m2 \<Rightarrow> Some m2
                 | None \<Rightarrow> None))"

subsection \<open>The client's state and the panel\<close>

text \<open>
  The fields of \<open>XRApi\<close>, and with them the world the client acts on: \<open>panel\<close> holds the
  replies the transport will deliver, in order, one per \<open>fetch\<close> (\<open>NetworkFailure\<close> is a
  rejected fetch, and so is an exhausted list); \<open>trace\<close> records every request sent, every
  log line and every \<open>sleep\<close>.  A call runs alone here: \<open>loggingIn\<close> is \<open>null\<close> when it
  starts and \<open>null\<close> again when it ends.  Calls that overlap are the subject of the last
  section.
\<close>

datatype fetch_result = Body string | NetworkFailure

record http_request =
  req_url :: string
  req_method :: string
  req_body :: "string option"

datatype xr_event = Fetch http_request | Info string | Warn string | Sleep nat

record xrapi =
  host :: "string option"
  username :: string
  pin :: string
  sess :: "string option"
  panel :: "fetch_result list"
  trace :: "xr_event list"

definition hasSess :: "xrapi \<Rightarrow> bool" where
  "hasSess s = (case sess s of None \<Rightarrow> False | Some t \<Rightarrow> t \<noteq> [])"

definition sessText :: "xrapi \<Rightarrow> string" where
  "sessText s = (case sess s of None \<Rightarrow> ''null'' | Some t \<Rightarrow> t)"

definition emit :: "xr_event \<Rightarrow> xrapi \<Rightarrow> xrapi" where
  "emit e s = s\<lparr>trace := trace s @ [e]\<rparr>"

definition baseUrl :: "xrapi \<Rightarrow> string \<Rightarrow> error + string" where
  "baseUrl s path =
     (case host s of
        None \<Rightarrow> Inl HostUndefined
      | Some h \<Rightarrow> if h = [] then Inl HostUndefined else Inr (''http://'' @ h @ path))"

text \<open>\<open>this.fetch(url, ...)\<close> followed by \<open>res.text()\<close>.\<close>

definition fetch :: "http_request \<Rightarrow> xrapi \<Rightarrow> (error + string) \<times> xrapi" where
  "fetch req s =
     (let s1 = emit (Fetch req) s in
      case panel s1 of
        [] \<Rightarrow> (Inl TransportError, s1)
      | Body t # rest \<Rightarrow> (Inr t, s1\<lparr>panel := rest\<rparr>)
      | NetworkFailure # rest \<Rightarrow> (Inl TransportError, s1\<lparr>panel := rest\<rparr>))"

text \<open>A property of a value that is not \<open>null\<close> or \<open>undefined\<close>, for a name no prototype defines.\<close>

fun getProp :: "jsvalue \<Rightarrow> string \<Rightarrow> error + jsvalue" where
  "getProp JUndefined k = Inl TypeError"
| "getProp JNull k = Inl TypeError"
| "getProp (JObject fs) k = Inr (case map_of fs k of None \<Rightarrow> JUndefined | Some v \<Rightarrow> v)"
| "getProp v k = Inr JUndefined"

subsection \<open>login, ensureLoggedIn, request\<close>

text \<open>The two log lines of the client.\<close>

definition loggedInMessage :: "string \<Rightarrow> string" where
  "loggedInMessage v = ''[Reliance XR] Logged in successfully. sess='' @ v"

definition sessionWarning :: "string \<Rightarrow> string" where
  "sessionWarning path =
     ''[Reliance XR] Session/login HTML returned for '' @ path
     @ ''. Re-logging in and retrying...''"

definition login :: "xrapi \<Rightarrow> (error + unit) \<times> xrapi" where
  "login s0 =
     (let s = s0\<lparr>sess := None\<rparr> in
      case baseUrl s ''/login.cgi'' of
        Inl e \<Rightarrow> (Inl e, s)
      | Inr url \<Rightarrow>
          (let body = ''lgname='' @ encodeURIComponent (username s)
                      @ ''&lgpin='' @ encodeURIComponent (pin s) in
           case fetch \<lparr>req_url = url, req_method = ''POST'', req_body = Some body\<rparr> s of
             (Inl e, s1) \<Rightarrow> (Inl e, s1)
           | (Inr text, s1) \<Rightarrow>
               (case extractSessFromHtml text of
                  None \<Rightarrow>
                    if looksLikeLoginHtml text then (Inl LoginNotAccepted, s1)
                    else (Inl LoginNoSess, s1)
                | Some v \<Rightarrow>
                    (Inr (), emit (Info (loggedInMessage v)) (s1\<lparr>sess := Some v\<rparr>)))))"

definition ensureLoggedIn :: "xrapi \<Rightarrow> (error + unit) \<times> xrapi" where
  "ensureLoggedIn s = (if hasSess s then (Inr (), s) else login s)"

text \<open>
  \<open>request(path, {method, data, expectJson, retry})\<close>.  \<open>JSON.parse\<close> is a parameter:
  \<open>parse text\<close> is \<open>None\<close> where it throws.  The result is the body as a string or
  the parsed value.
\<close>

definition hasData :: "string option \<Rightarrow> bool" where
  "hasData data = (case data of None \<Rightarrow> False | Some d \<Rightarrow> d \<noteq> [])"

function request ::
  "(string \<Rightarrow> jsvalue option) \<Rightarrow> string \<Rightarrow> string \<Rightarrow> string option \<Rightarrow> bool \<Rightarrow> bool
     \<Rightarrow> xrapi \<Rightarrow> (error + jsvalue) \<times> xrapi" where
  "request parse path method data expectJson retry s0 =
     (case ensureLoggedIn s0 of
        (Inl e, s) \<Rightarrow> (Inl e, s)
      | (Inr u, s) \<Rightarrow>
     (case baseUrl s path of
        Inl e \<Rightarrow> (Inl e, s)
      | Inr url \<Rightarrow>
     (let withSess = ''sess='' @ encodeURIComponent (sessText s);
          body = (if method \<noteq> ''GET''
                  then Some (if hasData data then withSess @ ''&'' @ the data else withSess)
                  else if hasData data then Some (withSess @ ''&'' @ the data)
                  else None);
          httpMethod = (if method = ''GET'' \<and> hasData data then ''POST'' else method)
      in case fetch \<lparr>req_url = url, req_method = httpMethod, req_body = body\<rparr> s of
        (Inl e, s1) \<Rightarrow> (Inl e, s1)
      | (Inr text, s1) \<Rightarrow>
          if looksLikeLoginHtml text \<and> retry then
            (let s2 = emit (Sleep 200) (emit (Warn (sessionWarning path)) s1) in
             case login s2 of
               (Inl e, s3) \<Rightarrow> (Inl e, s3)
             | (Inr u', s3) \<Rightarrow> request parse path method data expectJson False s3)
          else if \<not> expectJson then (Inr (JString text), s1)
          else (case parse text of
                  None \<Rightarrow> (Inl (InvalidJSON path (take 120 text)), s1)
                | Some parsed \<Rightarrow>
                    (case (if truthy parsed then getProp parsed ''error'' else Inr parsed) of
                       Inl e \<Rightarrow> (Inl e, s1)
                     | Inr err \<Rightarrow>
                         if truthy parsed \<and> truthy err
                         then (Inl (PanelErrorResponse path err), s1)
                         else (Inr parsed, s1))))))"
  by pat_completeness auto
termination
  by (relation "measure (\<lambda>(parse, path, method, data, expectJson, retry, s). if retry then 1 else 0)")
    auto

declare request.simps [simp del]

definition status :: "(string \<Rightarrow> jsvalue option) \<Rightarrow> int \<Rightarrow> xrapi \<Rightarrow> (error + jsvalue) \<times> xrapi" where
  "status parse areaIndex s =
     request parse ''/user/status.json'' ''POST''
       (Some (''arsel='' @ encodeURIComponent (numberToString areaIndex))) True True s"

definition keyFunction ::
  "(string \<Rightarrow> jsvalue option) \<Rightarrow> int \<Rightarrow> int \<Rightarrow> xrapi \<Rightarrow> (error + jsvalue) \<times> xrapi" where
  "keyFunction parse fnum areaIndex s =
     (let i = areaIndex;
          mask = js_shl 1 (js_rem i 8);
          start = i div 8
      in request parse ''/user/keyfunction.cgi'' ''POST''
           (Some (''fnum='' @ encodeURIComponent (numberToString fnum)
                  @ ''&start='' @ encodeURIComponent (numberToString start)
                  @ ''&mask='' @ encodeURIComponent (numberToString (sint mask)))) True True s)"

subsection \<open>Notions the claim about the retry uses\<close>

text \<open>
  The request that \<open>request\<close> sends for a path, a method and form data, given the
  client's host and session token.
\<close>

definition requestFor :: "xrapi \<Rightarrow> string \<Rightarrow> string \<Rightarrow> string option \<Rightarrow> http_request" where
  "requestFor s path method data =
     \<lparr>req_url = ''http://'' @ the (host s) @ path,
      req_method = (if method = ''GET'' \<and> hasData data then ''POST'' else method),
      req_body = (let withSess = ''sess='' @ encodeURIComponent (sessText s) in
                  if method \<noteq> ''GET''
                  then Some (if hasData data then withSess @ ''&'' @ the data else withSess)
                  else if hasData data then Some (withSess @ ''&'' @ the data)
                  else None)\<rparr>"

text \<open>
  The request that \<open>login\<close> sends, given the client's host and credentials: a form post
  of the user name and the PIN to \<open>/login.cgi\<close>, with no session token.
\<close>

definition loginRequest :: "xrapi \<Rightarrow> http_request" where
  "loginRequest s =
     \<lparr>req_url = ''http://'' @ the (host s) @ ''/login.cgi'',
      req_method = ''POST'',
      req_body = Some (''lgname='' @ encodeURIComponent (username s)
                       @ ''&lgpin='' @ encodeURIComponent (pin s))\<rparr>"

text \<open>
  The requests among a list of events, and what \<open>request\<close> returns for a body once it is
  past the login-page check: the text itself, or the parsed value, or one of the two
  errors of the JSON branch.
\<close>

fun fetchesOf :: "xr_event list \<Rightarrow> http_request list" where
  "fetchesOf [] = []"
| "fetchesOf (Fetch r # es) = r # fetchesOf es"
| "fetchesOf (e # es) = fetchesOf es"

definition bodyResult ::
  "(string \<Rightarrow> jsvalue option) \<Rightarrow> string \<Rightarrow> bool \<Rightarrow> string \<Rightarrow> error + jsvalue" where
  "bodyResult parse path expectJson text =
     (if \<not> expectJson then Inr (JString text)
      else case parse text of
        None \<Rightarrow> Inl (InvalidJSON path (take 120 text))
      | Some parsed \<Rightarrow>
          (case getProp parsed ''error'' of
             Inr err \<Rightarrow> if truthy parsed \<and> truthy err
                        then Inl (PanelErrorResponse path err) else Inr parsed
           | Inl e \<Rightarrow> Inr parsed))"

text \<open>
  A client whose session has expired: the panel answers the next request with its login
  page, accepts the login that follows, and answers the retried request with the login
  page again.
\<close>

definition loginPage :: string where
  "loginPage = ''<title>xGen :: Secure Network</title>''"

definition loginAccepted :: string where
  "loginAccepted = ''function getSession(){return \"A1B2C3D4E5F60718\";}''"

definition staleClient :: xrapi where
  "staleClient =
     \<lparr>host = Some ''panel'', username = ''user'', pin = ''1234'',
      sess = Some ''CDCDFDFF112F31DB'',
      panel = [Body loginPage, Body loginAccepted, Body loginPage], trace = []\<rparr>"

section \<open>The platform: reconciler and pulse notifier (RelianceXRPlatform)\<close>

text \<open>
  The accessory layer is outside the plugin: every \<open>updateCharacteristic\<close> and every log
  line is recorded in \<open>effects\<close>, in the order the code makes the calls, and none of these
  calls throws.  The four services are named after the fields that hold them; a field is
  \<open>None\<close> while it is \<open>null\<close>.
\<close>

datatype service = SecurityService | GarageService | AlarmEventService | DoorEventService

datatype characteristic =
    MotionDetected
  | SecuritySystemCurrentState
  | SecuritySystemTargetState
  | StatusFault
  | CurrentDoorState
  | TargetDoorState

datatype hap_value =
    Flag bool
  | DISARMED | DISARM | STAY_ARM | AWAY_ARM
  | NO_FAULT | GENERAL_FAULT
  | OPEN | CLOSED

datatype effect =
    Update service characteristic hap_value
  | LogInfo string
  | LogPollError error

text \<open>
  A timer of the runtime that has been set and has neither fired nor been cleared: its
  handle, the time it is due, and the service and key its callback closes over.
\<close>

record timer =
  handle :: nat
  due :: nat
  resetService :: service
  resetKey :: string

text \<open>
  The platform object together with the runtime's clock (in milliseconds) and timer table.
  The numeric settings are the integers \<open>Number(...)\<close> made of the configuration; the
  pulse duration may be any integer, also zero or a negative one.
\<close>

record platform =
  areaIndex :: int
  rollerDoorName :: string
  rollerDoorZone :: int
  zoneOpenBank :: int
  zoneOpenWhenSet :: bool
  enableEventNotifications :: bool
  eventPulseMs :: int
  xr :: xrapi
  securityService :: "service option"
  garageService :: "service option"
  alarmEventService :: "service option"
  doorEventService :: "service option"
  cachedMode :: string
  cachedDoorOpen :: "bool option"
  eventResetTimers :: "string \<rightharpoonup> nat"
  now :: nat
  pendingTimers :: "timer list"
  nextHandle :: nat
  effects :: "effect list"

definition updateCharacteristic ::
  "service \<Rightarrow> characteristic \<Rightarrow> hap_value \<Rightarrow> platform \<Rightarrow> platform" where
  "updateCharacteristic svc c v s = s\<lparr>effects := effects s @ [Update svc c v]\<rparr>"

definition logInfo :: "string \<Rightarrow> platform \<Rightarrow> platform" where
  "logInfo msg s = s\<lparr>effects := effects s @ [LogInfo msg]\<rparr>"

text \<open>
  The constructor, given the settings and the client: nothing is cached, no service is
  registered and no timer is pending.
\<close>

definition newPlatform ::
  "int \<Rightarrow> string \<Rightarrow> int \<Rightarrow> int \<Rightarrow> bool \<Rightarrow> bool \<Rightarrow> int \<Rightarrow> xrapi \<Rightarrow> platform" where
  "newPlatform area doorName doorZone bank openWhenSet notifications pulseMs client =
     \<lparr>areaIndex = area, rollerDoorName = doorName, rollerDoorZone = doorZone,
      zoneOpenBank = bank, zoneOpenWhenSet = openWhenSet,
      enableEventNotifications = notifications, eventPulseMs = pulseMs, xr = client,
      securityService = None, garageService = None,
      alarmEventService = None, doorEventService = None,
      cachedMode = ''UNKNOWN'', cachedDoorOpen = None, eventResetTimers = Map.empty,
      now = 0, pendingTimers = [], nextHandle = 0, effects = []\<rparr>"

text \<open>
  \<open>setupAccessories\<close>, as far as it assigns the service fields: \<open>getService\<close> or
  \<open>addService\<close> hands back the service, and the event sensors start inactive.  The
  accessory information, the handlers and the registration of the accessories are left
  out.  \<open>didFinishLaunching\<close> calls it before the first poll.
\<close>

definition setupAccessories :: "platform \<Rightarrow> platform" where
  "setupAccessories s0 =
     (let s1 = s0\<lparr>securityService := Some SecurityService\<rparr>;
          s2 = (if enableEventNotifications s1
                then updateCharacteristic AlarmEventService MotionDetected (Flag False)
                       (s1\<lparr>alarmEventService := Some AlarmEventService\<rparr>)
                else s1)
      in if rollerDoorZone s2 \<noteq> 0 \<and> rollerDoorZone s2 > 0 then
           (let s3 = s2\<lparr>garageService := Some GarageService\<rparr>
            in if enableEventNotifications s3
               then updateCharacteristic DoorEventService MotionDetected (Flag False)
                      (s3\<lparr>doorEventService := Some DoorEventService\<rparr>)
               else s3)
         else s2)"

subsection \<open>Timers\<close>

text \<open>
  The delay the runtime gives a timer: \<open>setTimeout\<close> of Node.js keeps a delay between 1
  and 2147483647 milliseconds and replaces every other one (zero, a negative one, one
  above that bound) by 1 millisecond.
\<close>

definition timerDelay :: "int \<Rightarrow> nat" where
  "timerDelay ms = (if 1 \<le> ms \<and> ms \<le> 2147483647 then nat ms else 1)"

text \<open>
  \<open>setTimeout\<close> with the reset callback of \<open>pulseMotion\<close>, \<open>clearTimeout\<close>, the callback
  itself, and the two things the runtime does: let time pass, and run the callback of a
  pending timer that is due (which removes the timer from the table).
\<close>

definition setTimeout :: "service \<Rightarrow> string \<Rightarrow> int \<Rightarrow> platform \<Rightarrow> nat \<times> platform" where
  "setTimeout svc key ms s =
     (let t = nextHandle s in
      (t, s\<lparr>pendingTimers := pendingTimers s
                @ [\<lparr>handle = t, due = now s + timerDelay ms, resetService = svc, resetKey = key\<rparr>],
             nextHandle := t + 1\<rparr>))"

definition clearTimeout :: "nat \<Rightarrow> platform \<Rightarrow> platform" where
  "clearTimeout t s = s\<lparr>pendingTimers := filter (\<lambda>x. handle x \<noteq> t) (pendingTimers s)\<rparr>"

definition resetCallback :: "service \<Rightarrow> string \<Rightarrow> platform \<Rightarrow> platform" where
  "resetCallback svc key s =
     (let s1 = updateCharacteristic svc MotionDetected (Flag False) s
      in s1\<lparr>eventResetTimers := (eventResetTimers s1)(key := None)\<rparr>)"

definition advance :: "nat \<Rightarrow> platform \<Rightarrow> platform" where
  "advance d s = s\<lparr>now := now s + d\<rparr>"

definition fireTimer :: "nat \<Rightarrow> platform \<Rightarrow> platform" where
  "fireTimer t s =
     (case find (\<lambda>x. handle x = t) (pendingTimers s) of
        None \<Rightarrow> s
      | Some x \<Rightarrow>
          if due x \<le> now s
          then resetCallback (resetService x) (resetKey x) (clearTimeout t s)
          else s)"

subsection \<open>pulseMotion, setMode, setGarageOpen\<close>

definition pulseMotion :: "service option \<Rightarrow> string \<Rightarrow> platform \<Rightarrow> platform" where
  "pulseMotion service key s =
     (case service of
        None \<Rightarrow> s
      | Some svc \<Rightarrow>
          (let s1 = updateCharacteristic svc MotionDetected (Flag True) s;
               existing = eventResetTimers s1 key;
               s2 = (case existing of None \<Rightarrow> s1 | Some old \<Rightarrow> clearTimeout old s1);
               (t, s3) = setTimeout svc key (eventPulseMs s2) s2
           in s3\<lparr>eventResetTimers := (eventResetTimers s3)(key \<mapsto> t)\<rparr>))"

definition setMode :: "string \<Rightarrow> platform \<Rightarrow> platform" where
  "setMode mode0 s =
     (let mode = (if mode0 = [] then ''UNKNOWN'' else mode0) in
      if mode = cachedMode s then s
      else
        (let s1 = s\<lparr>cachedMode := mode\<rparr>;
             s2 = logInfo (''[Reliance XR] MODE CHANGED => '' @ mode) s1;
             s3 = pulseMotion (alarmEventService s2) ''alarm'' s2
         in case securityService s3 of
              None \<Rightarrow> s3
            | Some svc \<Rightarrow>
                (let cur = (if mode = ''DISARMED'' then DISARMED
                            else if mode = ''STAY'' then STAY_ARM
                            else if mode = ''AWAY'' then AWAY_ARM
                            else DISARMED);
                     tgt = (if mode = ''DISARMED'' then DISARM
                            else if mode = ''STAY'' then STAY_ARM
                            else if mode = ''AWAY'' then AWAY_ARM
                            else DISARM)
                 in updateCharacteristic svc StatusFault NO_FAULT
                      (updateCharacteristic svc SecuritySystemTargetState tgt
                        (updateCharacteristic svc SecuritySystemCurrentState cur s3)))))"

definition setGarageOpen :: "bool \<Rightarrow> platform \<Rightarrow> platform" where
  "setGarageOpen isOpen s =
     (if cachedDoorOpen s = Some isOpen then s
      else
        (let s1 = s\<lparr>cachedDoorOpen := Some isOpen\<rparr>;
             s2 = logInfo (''[Reliance XR] '' @ rollerDoorName s1 @ '' => ''
                           @ (if isOpen then ''OPEN'' else ''CLOSED'')) s1;
             s3 = pulseMotion (doorEventService s2) ''door'' s2
         in case garageService s3 of
              None \<Rightarrow> s3
            | Some svc \<Rightarrow>
                (let cur = (if isOpen then OPEN else CLOSED);
                     tgt = (if isOpen then OPEN else CLOSED)
                 in updateCharacteristic svc TargetDoorState tgt
                      (updateCharacteristic svc CurrentDoorState cur s3))))"

subsection \<open>The poll cycle\<close>

text \<open>
  \<open>pollOnce\<close> returns the error it throws, if any, with the state it leaves behind:
  what was assigned before a throw stays assigned.  \<open>pollOnceSafe\<close> catches the error.
\<close>

definition pollOnce :: "(string \<Rightarrow> jsvalue option) \<Rightarrow> platform \<Rightarrow> error option \<times> platform" where
  "pollOnce parse s0 =
     (case status parse (areaIndex s0) (xr s0) of
        (Inl e, x) \<Rightarrow> (Some e, s0\<lparr>xr := x\<rparr>)
      | (Inr a, x) \<Rightarrow>
          (let s = s0\<lparr>xr := x\<rparr> in
           case getProp a ''bankstates'' of
             Inl e \<Rightarrow> (Some e, s)
           | Inr bankstates \<Rightarrow>
               (case decodeAreaModeFromBankstates bankstates (areaIndex s) of
                  Inl e \<Rightarrow> (Some e, s)
                | Inr mode \<Rightarrow>
                    (let s1 = setMode mode s in
                     if rollerDoorZone s1 \<noteq> 0 \<and> rollerDoorZone s1 > 0 then
                       (let banks = getZoneStateBanks bankstates in
                        case isZoneOpenFromBanks banks (rollerDoorZone s1) (zoneOpenBank s1)
                               (zoneOpenWhenSet s1) of
                          Inl e \<Rightarrow> (Some e, s1)
                        | Inr isOpen \<Rightarrow> (None, setGarageOpen isOpen s1))
                     else (None, s1)))))"

definition pollOnceSafe :: "(string \<Rightarrow> jsvalue option) \<Rightarrow> platform \<Rightarrow> platform" where
  "pollOnceSafe parse s0 =
     (case pollOnce parse s0 of
        (None, s) \<Rightarrow> s
      | (Some e, s) \<Rightarrow>
          (let s1 = s\<lparr>effects := effects s @ [LogPollError e]\<rparr>;
               s2 = s1\<lparr>xr := (xr s1)\<lparr>sess := None\<rparr>\<rparr>
           in case securityService s2 of
                None \<Rightarrow> s2
              | Some svc \<Rightarrow> updateCharacteristic svc StatusFault GENERAL_FAULT s2))"

subsection \<open>Notions the claims about the platform use\<close>

text \<open>
  A change notification is a level-state update of the accessory layer or the activation
  of a pulse.  The snapshot is the pair of cached fields.  \<open>normMode\<close> is the first line
  of \<open>setMode\<close>.
\<close>

definition normMode :: "string \<Rightarrow> string" where
  "normMode mode = (if mode = [] then ''UNKNOWN'' else mode)"

fun isChangeNotification :: "effect \<Rightarrow> bool" where
  "isChangeNotification (Update svc MotionDetected v) = (v = Flag True)"
| "isChangeNotification (Update svc SecuritySystemCurrentState v) = True"
| "isChangeNotification (Update svc SecuritySystemTargetState v) = True"
| "isChangeNotification (Update svc CurrentDoorState v) = True"
| "isChangeNotification (Update svc TargetDoorState v) = True"
| "isChangeNotification e = False"

definition snapshot :: "platform \<Rightarrow> string \<times> bool option" where
  "snapshot s = (cachedMode s, cachedDoorOpen s)"

text \<open>
  The timer table and the registry \<open>_eventResetTimers\<close> agree: every pending timer is the
  one registered under its key, every registered handle belongs to a pending timer of that
  key, no two pending timers share a handle, and handles are not reused.  This holds when
  the platform is constructed (no timer is pending, nothing is registered) and every
  operation keeps it.
\<close>

definition timersAgree :: "platform \<Rightarrow> bool" where
  "timersAgree s =
     (list_all (\<lambda>x. eventResetTimers s (resetKey x) = Some (handle x) \<and> handle x < nextHandle s)
        (pendingTimers s)
      \<and> distinct (map handle (pendingTimers s))
      \<and> (\<forall>k h. eventResetTimers s k = Some h \<longrightarrow>
            (\<exists>y \<in> set (pendingTimers s). handle y = h \<and> resetKey y = k)))"

definition pendingFor :: "string \<Rightarrow> platform \<Rightarrow> timer list" where
  "pendingFor key s = filter (\<lambda>x. resetKey x = key) (pendingTimers s)"

subsection \<open>A panel to run the platform against\<close>

text \<open>
  A client that is logged in to a panel whose next status replies carry, in this order, a
  blob with the full-arm bit of area 0 set, an empty blob, and the first blob again;
  \<open>exampleParse\<close> is \<open>JSON.parse\<close> on these bodies.  The platform watches area 0 and
  zone 3 and has gone through \<open>setupAccessories\<close>.
\<close>

definition armedBody :: string where
  "armedBody = ''{\"bankstates\":\"040000010000\"}''"

definition emptyBody :: string where
  "emptyBody = ''{\"bankstates\":\"\"}''"

definition exampleParse :: "string \<Rightarrow> jsvalue option" where
  "exampleParse text =
     (if text = armedBody then Some (JObject [(''bankstates'', JString ''040000010000'')])
      else if text = emptyBody then Some (JObject [(''bankstates'', JString [])])
      else None)"

definition exampleClient :: xrapi where
  "exampleClient =
     \<lparr>host = Some ''panel'', username = ''user'', pin = ''1234'',
      sess = Some ''CDCDFDFF112F31DB'',
      panel = [Body armedBody, Body emptyBody, Body armedBody], trace = []\<rparr>"

definition examplePlatform :: platform where
  "examplePlatform =
     setupAccessories (newPlatform 0 ''Roller Door'' 3 0 True True 1500 exampleClient)"

text \<open>
  The same platform facing a panel that repeats the first reply, and facing a panel that
  does not answer.
\<close>

definition steadyPlatform :: platform where
  "steadyPlatform =
     examplePlatform\<lparr>xr := exampleClient\<lparr>panel := [Body armedBody, Body armedBody]\<rparr>\<rparr>"

definition offlinePlatform :: platform where
  "offlinePlatform = examplePlatform\<lparr>xr := exampleClient\<lparr>panel := []\<rparr>\<rparr>"

text \<open>
  Two replies that are JSON and carry no blob to decode: the value \<open>null\<close>, and an object
  whose \<open>bankstates\<close> is a number.  \<open>oddParse\<close> is \<open>JSON.parse\<close> on these bodies.
\<close>

definition nullBody :: string where
  "nullBody = ''null''"

definition numberBody :: string where
  "numberBody = ''{\"bankstates\":7}''"

definition oddParse :: "string \<Rightarrow> jsvalue option" where
  "oddParse text =
     (if text = nullBody then Some JNull
      else if text = numberBody then Some (JObject [(''bankstates'', JNumber 7)])
      else None)"

definition nullReplyPlatform :: platform where
  "nullReplyPlatform = examplePlatform\<lparr>xr := exampleClient\<lparr>panel := [Body nullBody]\<rparr>\<rparr>"

definition numberBlobPlatform :: platform where
  "numberBlobPlatform = examplePlatform\<lparr>xr := exampleClient\<lparr>panel := [Body numberBody]\<rparr>\<rparr>"

section \<open>Login under overlapping calls\<close>

text \<open>
  JavaScript runs one piece of code at a time; an \<open>async\<close> function gives up control only
  at an \<open>await\<close>.  The overlapping calls of \<open>ensureLoggedIn\<close> are therefore a sequence
  of events, each running to its next \<open>await\<close>:
  \<^item> \<open>Call c\<close>: caller \<open>c\<close> invokes \<open>ensureLoggedIn()\<close>.  With a token it returns.  With a
    login in flight (\<open>loggingIn\<close> set) it gets that promise and waits for it.  Otherwise
    \<open>login\<close> starts the attempt: the token is cleared, the request is sent, the new promise
    is stored in \<open>loggingIn\<close>, and the caller waits for it; if \<open>baseUrl\<close> throws, the promise
    is rejected at once, and \<open>finally\<close> has cleared \<open>loggingIn\<close> before the next event.
  \<^item> \<open>Reply r\<close>: the transport answers the request of the login in flight.  The attempt
    runs to its end and settles the promise; then the caller that started it clears
    \<open>loggingIn\<close> in its \<open>finally\<close>, and every caller waiting for the promise returns or throws
    as the promise did.
  A promise is named by a number, a caller by a number.  \<open>loginStart\<close> and \<open>loginFinish\<close>
  are the two halves of the attempt, before and after \<open>await this.fetch(...)\<close>; the
  replies come with the events, so \<open>panel\<close> is not read here.
\<close>

datatype outcome = Resolved | Rejected error

definition loginStart :: "xrapi \<Rightarrow> (error + http_request) \<times> xrapi" where
  "loginStart s0 =
     (let s = s0\<lparr>sess := None\<rparr> in
      case baseUrl s ''/login.cgi'' of
        Inl e \<Rightarrow> (Inl e, s)
      | Inr url \<Rightarrow>
          (let body = ''lgname='' @ encodeURIComponent (username s)
                      @ ''&lgpin='' @ encodeURIComponent (pin s);
               req = \<lparr>req_url = url, req_method = ''POST'', req_body = Some body\<rparr>
           in (Inr req, emit (Fetch req) s)))"

definition loginFinish :: "fetch_result \<Rightarrow> xrapi \<Rightarrow> outcome \<times> xrapi" where
  "loginFinish r s =
     (case r of
        NetworkFailure \<Rightarrow> (Rejected TransportError, s)
      | Body text \<Rightarrow>
          (case extractSessFromHtml text of
             None \<Rightarrow>
               if looksLikeLoginHtml text then (Rejected LoginNotAccepted, s)
               else (Rejected LoginNoSess, s)
           | Some v \<Rightarrow> (Resolved, emit (Info (loggedInMessage v)) (s\<lparr>sess := Some v\<rparr>))))"

record loop =
  api :: xrapi
  loggingIn :: "nat option"
  nextPromise :: nat
  waiting :: "(nat \<times> nat) list"
  finished :: "(nat \<times> outcome) list"

datatype event = Call nat | Reply fetch_result

fun step :: "event \<Rightarrow> loop \<Rightarrow> loop" where
  "step (Call c) st =
     (if hasSess (api st) then st\<lparr>finished := finished st @ [(c, Resolved)]\<rparr>
      else case loggingIn st of
        Some p \<Rightarrow> st\<lparr>waiting := waiting st @ [(c, p)]\<rparr>
      | None \<Rightarrow>
          (case loginStart (api st) of
             (Inl e, a) \<Rightarrow>
               st\<lparr>api := a, nextPromise := nextPromise st + 1,
                  finished := finished st @ [(c, Rejected e)]\<rparr>
           | (Inr req, a) \<Rightarrow>
               st\<lparr>api := a, loggingIn := Some (nextPromise st),
                  nextPromise := nextPromise st + 1,
                  waiting := waiting st @ [(c, nextPromise st)]\<rparr>))"
| "step (Reply r) st =
     (case loggingIn st of
        None \<Rightarrow> st
      | Some p \<Rightarrow>
          (let (out, a) = loginFinish r (api st)
           in st\<lparr>api := a, loggingIn := None,
                 waiting := filter (\<lambda>w. snd w \<noteq> p) (waiting st),
                 finished := finished st
                   @ map (\<lambda>w. (fst w, out)) (filter (\<lambda>w. snd w = p) (waiting st))\<rparr>))"

text \<open>The calls of the callers \<open>cs\<close>, one after the other, with no reply in between.\<close>

definition calls :: "nat list \<Rightarrow> loop \<Rightarrow> loop" where
  "calls cs st = foldl (\<lambda>st' c. step (Call c) st') st cs"

text \<open>A client without a token and with no login in flight, on which nobody waits.\<close>

definition idle :: "loop \<Rightarrow> bool" where
  "idle st = (\<not> hasSess (api st) \<and> loggingIn st = None \<and> waiting st = [])"

definition loggedOut :: loop where
  "loggedOut =
     \<lparr>api = \<lparr>host = Some ''panel'', username = ''user'', pin = ''1234'', sess = None,
             panel = [], trace = []\<rparr>,
      loggingIn = None, nextPromise = 0, waiting = [], finished = []\<rparr>"

section \<open>Properties of the decoder\<close>

lemma hexDigit_not_ws: "hexDigitValue c = Some a \<Longrightarrow> \<not> isStrWhiteSpaceChar c"
  by (auto simp: hexDigitValue_def isStrWhiteSpaceChar_def Let_def split: if_splits)

lemma hexDigit_not_sign:
  "hexDigitValue c = Some a \<Longrightarrow>
     c \<noteq> CHR ''+'' \<and> c \<noteq> CHR ''-'' \<and> c \<noteq> CHR ''x'' \<and> c \<noteq> CHR ''X''"
  by (auto simp: hexDigitValue_def Let_def split: if_splits)

lemma hexDigit_range: "hexDigitValue c = Some a \<Longrightarrow> 0 \<le> a \<and> a \<le> 15"
  by (auto simp: hexDigitValue_def Let_def split: if_splits)

lemma parseInt16_two_digits:
  assumes "hexDigitValue c = Some a" "hexDigitValue d = Some b"
  shows "parseInt16 [c, d] = Num (16 * a + b)"
  using assms hexDigit_not_ws[OF assms(1)] hexDigit_not_sign[OF assms(1)]
    hexDigit_not_sign[OF assms(2)]
  by (simp add: parseInt16_def isHexDigit_def)

lemma parseInt16_malformed:
  assumes "\<not> (isHexDigit c \<and> isHexDigit d)"
  shows "parseInt16 [c, d] = NaN \<or> (\<exists>n. parseInt16 [c, d] = Num n \<and> \<bar>n\<bar> \<le> 15)"
proof -
  have r: "\<And>x. isHexDigit x \<Longrightarrow> \<bar>the (hexDigitValue x)\<bar> \<le> 15"
    using hexDigit_range by (fastforce simp: isHexDigit_def)
  show ?thesis
    using assms r[of c] r[of d]
    by (auto simp: parseInt16_def Let_def)
qed

lemma substring_two:
  assumes "0 \<le> off" "nat off + 2 \<le> length s"
  shows "substring s off (off + 2) = [s ! nat off, s ! (nat off + 1)]"
proof -
  have "drop (nat off) s = s ! nat off # s ! (nat off + 1) # drop (nat off + 2) s"
    using assms by (simp add: Cons_nth_drop_Suc)
  then have "take 2 (drop (nat off) s) = [s ! nat off, s ! (nat off + 1)]"
    by simp
  then show ?thesis
    using assms by (simp add: substring_def Let_def min_def max_def)
qed

lemma substring_short:
  assumes "off < 0 \<or> int (length s) < off + 2"
  shows "length (substring s off (off + 2)) < 2"
  using assms by (auto simp: substring_def Let_def min_def max_def)

lemma hexByteAt_valid:
  assumes "0 \<le> off" "nat off + 2 \<le> length blob"
    "hexDigitValue (blob ! nat off) = Some a" "hexDigitValue (blob ! (nat off + 1)) = Some b"
  shows "hexByteAt blob off = Num (16 * a + b)"
  using assms by (simp add: hexByteAt_def substring_two parseInt16_two_digits)

lemma hexByteAt_out_of_range:
  assumes "off < 0 \<or> int (length blob) < off + 2"
  shows "hexByteAt blob off = Num 0"
  using substring_short[OF assms] by (auto simp: hexByteAt_def Let_def)

lemma hexByteAt_malformed:
  assumes "\<not> outOfRange blob off" "\<not> validHexByte blob off"
  shows "hexByteAt blob off = NaN \<or> (\<exists>n. hexByteAt blob off = Num n \<and> \<bar>n\<bar> \<le> 15)"
proof -
  have a: "0 \<le> off" "nat off + 2 \<le> length blob"
    using assms(1) by (auto simp: outOfRange_def)
  have "\<not> (isHexDigit (blob ! nat off) \<and> isHexDigit (blob ! (nat off + 1)))"
    using assms by (auto simp: outOfRange_def validHexByte_def)
  from parseInt16_malformed[OF this] show ?thesis
    by (simp add: hexByteAt_def substring_two[OF a])
qed

text \<open>
  C6, as the specification states it: a valid slice gives its value, and an out-of-range
  offset or a malformed slice gives 0.  The slice \<open>zz\<close> is malformed and gives \<open>NaN\<close>.
\<close>

theorem hexByteAt_malformed_counterexample:
  "\<not> outOfRange ''zz'' 0 \<and> \<not> validHexByte ''zz'' 0 \<and> hexByteAt ''zz'' 0 = NaN
   \<and> hexByteAt ''zz'' 0 \<noteq> Num 0"
  by code_simp

text \<open>
  C6, amended: \<open>_hexByteAt\<close> returns the value of a valid hexadecimal slice, and 0 when
  the offset is out of range (fewer than two characters are left); on a malformed slice
  inside the blob it returns what \<open>parseInt\<close> makes of it, which is \<open>NaN\<close> or the signed
  value of a single digit, and a \<open>NaN\<close> reads as 0 under every mask.  It has no error
  result on a string.
\<close>

theorem hexByteAt_spec:
  "(validHexByte blob off \<longrightarrow> hexByteAt blob off = Num (hexByteValue blob off))
   \<and> (outOfRange blob off \<longrightarrow> hexByteAt blob off = Num 0)
   \<and> (\<not> outOfRange blob off \<and> \<not> validHexByte blob off \<longrightarrow>
        hexByteAt blob off = NaN \<or> (\<exists>n. hexByteAt blob off = Num n \<and> \<bar>n\<bar> \<le> 15))
   \<and> (hexByteAt blob off = NaN \<longrightarrow> toInt32 (hexByteAt blob off) AND m = 0)"
proof (intro conjI impI)
  assume v: "validHexByte blob off"
  then obtain a b where ab: "hexDigitValue (blob ! nat off) = Some a"
      "hexDigitValue (blob ! (nat off + 1)) = Some b"
    by (auto simp: validHexByte_def isHexDigit_def)
  from v have "0 \<le> off" "nat off + 2 \<le> length blob"
    by (auto simp: validHexByte_def)
  from hexByteAt_valid[OF this ab] ab
  show "hexByteAt blob off = Num (hexByteValue blob off)"
    by (simp add: hexByteValue_def)
next
  assume "outOfRange blob off"
  then show "hexByteAt blob off = Num 0"
    by (simp add: outOfRange_def hexByteAt_out_of_range)
next
  assume "\<not> outOfRange blob off \<and> \<not> validHexByte blob off"
  then show "hexByteAt blob off = NaN \<or> (\<exists>n. hexByteAt blob off = Num n \<and> \<bar>n\<bar> \<le> 15)"
    using hexByteAt_malformed by blast
next
  assume "hexByteAt blob off = NaN"
  then show "toInt32 (hexByteAt blob off) AND m = 0"
    by simp
qed

theorem hexByteAt_spec_witness:
  "validHexByte ''0a1F'' 2 \<and> hexByteAt ''0a1F'' 2 = Num 31
   \<and> outOfRange ''0a1F'' 3 \<and> hexByteAt ''0a1F'' 3 = Num 0
   \<and> \<not> outOfRange ''0x'' 0 \<and> \<not> validHexByte ''0x'' 0 \<and> hexByteAt ''0x'' 0 = NaN
   \<and> toInt32 (hexByteAt ''0x'' 0) AND 1 = 0"
proof -
  have v: "validHexByte ''0a1F'' 2" "hexByteValue ''0a1F'' 2 = 31"
    by code_simp+
  have r: "outOfRange ''0a1F'' 3"
    by code_simp
  have n: "\<not> outOfRange ''0x'' 0" "\<not> validHexByte ''0x'' 0" "hexByteAt ''0x'' 0 = NaN"
    by code_simp+
  from hexByteAt_spec[of "''0a1F''" 2 1] v
  have 1: "hexByteAt ''0a1F'' 2 = Num 31" by metis
  from hexByteAt_spec[of "''0a1F''" 3 1] r
  have 2: "hexByteAt ''0a1F'' 3 = Num 0" by metis
  from hexByteAt_spec[of "''0x''" 0 1] n
  have 3: "toInt32 (hexByteAt ''0x'' 0) AND 1 = 0" by metis
  from v r n 1 2 3 show ?thesis by blast
qed

lemma area_mask_nonneg:
  assumes "0 \<le> i"
  shows "js_shl 1 (js_rem i 8) = 2 ^ nat (i mod 8)"
proof -
  have "js_rem i 8 = i mod 8"
    using assms by (cases "i = 0") (simp_all add: js_rem_def)
  moreover have "(i mod 8) mod 32 = i mod 8"
    by (simp add: mod_mod_cancel)
  ultimately show ?thesis
    by (simp add: js_shl_def)
qed

lemma and_mask_bit:
  assumes "n < 8"
  shows "((word_of_int k :: 32 word) AND 2 ^ n \<noteq> 0) = bit k n"
proof -
  have "((word_of_int k :: 32 word) AND 2 ^ n = 0) = (\<not> bit (word_of_int k :: 32 word) n)"
    by (rule and_exp_eq_0_iff_not_bit)
  then show ?thesis
    using assms by (simp add: bit_word_of_int_iff)
qed

lemma wellFormed_byte:
  assumes "wellFormedBlob blob" "0 \<le> off" "nat off = 2 * k" "k < 6"
  shows "hexByteAt blob off = Num (blobByte blob k)"
proof -
  have len: "nat off + 2 \<le> length blob"
    using assms by (simp add: wellFormedBlob_def)
  have "isHexDigit (blob ! (2 * k))" "isHexDigit (blob ! (2 * k + 1))"
    using assms by (simp_all add: wellFormedBlob_def list_all_length)
  then obtain a b where ab: "hexDigitValue (blob ! nat off) = Some a"
      "hexDigitValue (blob ! (nat off + 1)) = Some b"
    using assms(3) by (auto simp: isHexDigit_def)
  have "hexByteAt blob off = Num (16 * a + b)"
    using assms(2) len ab by (rule hexByteAt_valid)
  then show ?thesis
    using ab assms(3) by (simp add: blobByte_def)
qed

lemma maskedBit_wellFormed:
  assumes "wellFormedBlob blob" "0 \<le> i" "0 \<le> off" "nat off = 2 * k" "k < 6"
  shows "maskedBit blob off i = bit (blobByte blob k) (nat (i mod 8))"
proof -
  have "nat (i mod 8) < 8" by simp
  from and_mask_bit[OF this, of "blobByte blob k"] show ?thesis
    by (simp add: maskedBit_def wellFormed_byte[OF assms(1,3,4,5)]
        area_mask_nonneg[OF assms(2)])
qed

lemma decode_string:
  "blob \<noteq> [] \<Longrightarrow> decodeAreaModeFromBankstates (JString blob) i =
     Inr (if maskedBit blob 6 i then ''AWAY''
          else if maskedBit blob 4 i then ''STAY'' else ''DISARMED'')"
  by (simp add: decodeAreaModeFromBankstates_def maskedBit_def Let_def)

text \<open>
  C1: on every non-empty blob (so on every blob long enough to cover the arming bytes) and
  for every area index, \<open>decodeAreaModeFromBankstates\<close> returns one of \<open>DISARMED\<close>,
  \<open>STAY\<close>, \<open>AWAY\<close>, being a function of its two arguments; when the full-arm bit (byte at
  offset 6) and the partial-arm bit (byte at offset 4) selected by the mask are both set
  the result is \<open>AWAY\<close>; when neither is set the result is \<open>DISARMED\<close> whatever the
  exit-delay bytes hold.  On a blob of hexadecimal digits and a non-negative index the
  result is read off the arithmetic bits \<open>areaIndex mod 8\<close> of bytes 3 and 2.
\<close>

theorem decodeAreaMode_total:
  assumes "blob \<noteq> []"
  shows "decodeAreaModeFromBankstates (JString blob) i
           \<in> {Inr ''DISARMED'', Inr ''STAY'', Inr ''AWAY''}
    \<and> (maskedBit blob 6 i \<and> maskedBit blob 4 i \<longrightarrow>
          decodeAreaModeFromBankstates (JString blob) i = Inr ''AWAY'')
    \<and> (\<not> maskedBit blob 6 i \<and> \<not> maskedBit blob 4 i \<longrightarrow>
          decodeAreaModeFromBankstates (JString blob) i = Inr ''DISARMED'')
    \<and> (wellFormedBlob blob \<and> 0 \<le> i \<longrightarrow>
          decodeAreaModeFromBankstates (JString blob) i =
            Inr (if bit (blobByte blob 3) (nat (i mod 8)) then ''AWAY''
                 else if bit (blobByte blob 2) (nat (i mod 8)) then ''STAY''
                 else ''DISARMED''))"
proof -
  have wf: "wellFormedBlob blob \<and> 0 \<le> i \<longrightarrow>
      maskedBit blob 6 i = bit (blobByte blob 3) (nat (i mod 8))
      \<and> maskedBit blob 4 i = bit (blobByte blob 2) (nat (i mod 8))"
    using maskedBit_wellFormed[of blob i 6 3] maskedBit_wellFormed[of blob i 4 2]
    by simp
  show ?thesis
    unfolding decode_string[OF assms] using wf by simp
qed

theorem decodeAreaMode_total_witness:
  "''000003010180'' \<noteq> [] \<and> wellFormedBlob ''000003010180'' \<and> (0::int) \<le> 0 \<and> (0::int) \<le> 7
   \<and> maskedBit ''000003010180'' 6 0 \<and> maskedBit ''000003010180'' 4 0
   \<and> bit (blobByte ''000003010180'' 3) (nat (0 mod 8))
   \<and> decodeAreaModeFromBankstates (JString ''000003010180'') 0 = Inr ''AWAY''
   \<and> \<not> maskedBit ''000003010180'' 6 7 \<and> \<not> maskedBit ''000003010180'' 4 7
   \<and> maskedBit ''000003010180'' 10 7
   \<and> \<not> bit (blobByte ''000003010180'' 3) (nat (7 mod 8))
   \<and> \<not> bit (blobByte ''000003010180'' 2) (nat (7 mod 8))
   \<and> decodeAreaModeFromBankstates (JString ''000003010180'') 7 = Inr ''DISARMED''"
proof -
  have ne: "''000003010180'' \<noteq> []"
    by simp
  have wf: "wellFormedBlob ''000003010180''"
    by code_simp
  have b0: "maskedBit ''000003010180'' 6 0" "maskedBit ''000003010180'' 4 0"
    by code_simp+
  have b7: "\<not> maskedBit ''000003010180'' 6 7" "\<not> maskedBit ''000003010180'' 4 7"
      "maskedBit ''000003010180'' 10 7"
    by code_simp+
  have a: "bit (blobByte ''000003010180'' 3) (nat (0 mod 8))"
      "\<not> bit (blobByte ''000003010180'' 3) (nat (7 mod 8))"
      "\<not> bit (blobByte ''000003010180'' 2) (nat (7 mod 8))"
    by code_simp+
  from decodeAreaMode_total[OF ne, of 0] b0
  have 1: "decodeAreaModeFromBankstates (JString ''000003010180'') 0 = Inr ''AWAY''"
    by blast
  from decodeAreaMode_total[OF ne, of 7] wf a(2,3)
  have 2: "decodeAreaModeFromBankstates (JString ''000003010180'') 7 = Inr ''DISARMED''"
    by simp
  have "(0::int) \<le> 0" "(0::int) \<le> 7"
    by simp_all
  with ne wf b0 b7 a 1 2 show ?thesis
    by blast
qed

text \<open>
  C7, as the specification states it, for all inputs: on the empty blob both polarities
  answer \<open>false\<close>, so neither is the negation of the other.
\<close>

theorem isZoneOpen_polarity_counterexample:
  "isZoneOpenFromBanks (JString []) 1 0 True = Inr False
   \<and> isZoneOpenFromBanks (JString []) 1 0 False = Inr False"
  by (simp add: isZoneOpenFromBanks_def)

text \<open>
  C7, amended: for every non-empty blob, zone number and bank value,
  \<open>isZoneOpenFromBanks\<close> with \<open>openWhenSet = true\<close> is the negation of the result with
  \<open>openWhenSet = false\<close>; for the empty blob both are \<open>false\<close>.
\<close>

theorem isZoneOpen_polarity:
  "(blob \<noteq> [] \<longrightarrow>
      (\<exists>b. isZoneOpenFromBanks (JString blob) z bank True = Inr b
          \<and> isZoneOpenFromBanks (JString blob) z bank False = Inr (\<not> b)))
   \<and> (blob = [] \<longrightarrow>
      isZoneOpenFromBanks (JString blob) z bank True = Inr False
      \<and> isZoneOpenFromBanks (JString blob) z bank False = Inr False)"
  by (simp add: isZoneOpenFromBanks_def Let_def)

theorem isZoneOpen_polarity_witness:
  "''04'' \<noteq> [] \<and> isZoneOpenFromBanks (JString ''04'') 3 0 True = Inr True
   \<and> isZoneOpenFromBanks (JString ''04'') 3 0 False = Inr False
   \<and> isZoneOpenFromBanks (JString []) 3 0 True = Inr False
   \<and> isZoneOpenFromBanks (JString []) 3 0 False = Inr False"
proof -
  have t: "isZoneOpenFromBanks (JString ''04'') 3 0 True = Inr True"
    by code_simp
  from isZoneOpen_polarity[of "''04''" 3 0] t
  have f: "isZoneOpenFromBanks (JString ''04'') 3 0 False = Inr False"
    by auto
  from isZoneOpen_polarity[of "[]" 3 0]
  have e: "isZoneOpenFromBanks (JString []) 3 0 True = Inr False"
      "isZoneOpenFromBanks (JString []) 3 0 False = Inr False"
    by blast+
  from t f e show ?thesis
    by simp
qed

section \<open>Properties of the platform\<close>

subsection \<open>What each operation leaves alone\<close>

lemma pulseMotion_fields:
  "cachedMode (pulseMotion svc key s) = cachedMode s"
  "cachedDoorOpen (pulseMotion svc key s) = cachedDoorOpen s"
  "areaIndex (pulseMotion svc key s) = areaIndex s"
  "rollerDoorZone (pulseMotion svc key s) = rollerDoorZone s"
  "zoneOpenBank (pulseMotion svc key s) = zoneOpenBank s"
  "zoneOpenWhenSet (pulseMotion svc key s) = zoneOpenWhenSet s"
  "xr (pulseMotion svc key s) = xr s"
  "securityService (pulseMotion svc key s) = securityService s"
  "garageService (pulseMotion svc key s) = garageService s"
  "alarmEventService (pulseMotion svc key s) = alarmEventService s"
  "doorEventService (pulseMotion svc key s) = doorEventService s"
  by (simp_all add: pulseMotion_def setTimeout_def clearTimeout_def updateCharacteristic_def
      Let_def split: option.splits)

lemma pulseMotion_effects:
  "effects (pulseMotion svc key s) =
     effects s @ (case svc of None \<Rightarrow> [] | Some v \<Rightarrow> [Update v MotionDetected (Flag True)])"
  by (simp add: pulseMotion_def setTimeout_def clearTimeout_def updateCharacteristic_def
      Let_def split: option.splits)

lemma setMode_same: "normMode mode = cachedMode s \<Longrightarrow> setMode mode s = s"
  by (simp add: setMode_def normMode_def)

lemma setMode_fields:
  "cachedMode (setMode mode s) = normMode mode"
  "cachedDoorOpen (setMode mode s) = cachedDoorOpen s"
  "areaIndex (setMode mode s) = areaIndex s"
  "rollerDoorZone (setMode mode s) = rollerDoorZone s"
  "zoneOpenBank (setMode mode s) = zoneOpenBank s"
  "zoneOpenWhenSet (setMode mode s) = zoneOpenWhenSet s"
  "xr (setMode mode s) = xr s"
  "securityService (setMode mode s) = securityService s"
  "garageService (setMode mode s) = garageService s"
  "alarmEventService (setMode mode s) = alarmEventService s"
  "doorEventService (setMode mode s) = doorEventService s"
  by (simp_all add: setMode_def normMode_def logInfo_def updateCharacteristic_def
      pulseMotion_fields Let_def split: option.splits)

lemma setGarageOpen_same: "cachedDoorOpen s = Some isOpen \<Longrightarrow> setGarageOpen isOpen s = s"
  by (simp add: setGarageOpen_def)

lemma setGarageOpen_fields:
  "cachedMode (setGarageOpen isOpen s) = cachedMode s"
  "cachedDoorOpen (setGarageOpen isOpen s) = Some isOpen"
  "areaIndex (setGarageOpen isOpen s) = areaIndex s"
  "rollerDoorZone (setGarageOpen isOpen s) = rollerDoorZone s"
  "zoneOpenBank (setGarageOpen isOpen s) = zoneOpenBank s"
  "zoneOpenWhenSet (setGarageOpen isOpen s) = zoneOpenWhenSet s"
  "xr (setGarageOpen isOpen s) = xr s"
  "securityService (setGarageOpen isOpen s) = securityService s"
  "garageService (setGarageOpen isOpen s) = garageService s"
  "alarmEventService (setGarageOpen isOpen s) = alarmEventService s"
  "doorEventService (setGarageOpen isOpen s) = doorEventService s"
  by (simp_all add: setGarageOpen_def logInfo_def updateCharacteristic_def
      pulseMotion_fields Let_def split: option.splits)

lemma setMode_effects:
  assumes "normMode mode \<noteq> cachedMode s"
  shows "effects (setMode mode s) =
     effects s @ [LogInfo (''[Reliance XR] MODE CHANGED => '' @ normMode mode)]
     @ (case alarmEventService s of None \<Rightarrow> [] | Some v \<Rightarrow> [Update v MotionDetected (Flag True)])
     @ (case securityService s of None \<Rightarrow> []
        | Some svc \<Rightarrow>
            [Update svc SecuritySystemCurrentState
               (if normMode mode = ''STAY'' then STAY_ARM
                else if normMode mode = ''AWAY'' then AWAY_ARM else DISARMED),
             Update svc SecuritySystemTargetState
               (if normMode mode = ''STAY'' then STAY_ARM
                else if normMode mode = ''AWAY'' then AWAY_ARM else DISARM),
             Update svc StatusFault NO_FAULT])"
  using assms
  by (simp add: setMode_def normMode_def logInfo_def updateCharacteristic_def
      pulseMotion_fields pulseMotion_effects Let_def split: option.splits)

subsection \<open>The outcomes of a poll\<close>

lemma decode_zone_ok:
  assumes "decodeAreaModeFromBankstates b i = Inr m"
  shows "\<exists>isOpen. isZoneOpenFromBanks b z bank w = Inr isOpen"
  using assms
  by (cases b) (auto simp: decodeAreaModeFromBankstates_def isZoneOpenFromBanks_def Let_def
      split: if_splits)

lemma decode_modes:
  assumes "decodeAreaModeFromBankstates b i = Inr m"
  shows "(truthy b \<longrightarrow> m \<in> {''DISARMED'', ''STAY'', ''AWAY''}) \<and> (\<not> truthy b \<longrightarrow> m = ''UNKNOWN'')"
  using assms
  by (cases b) (auto simp: decodeAreaModeFromBankstates_def Let_def split: if_splits)

lemma decode_nonstring:
  assumes "truthy b" "\<And>blob. b \<noteq> JString blob"
  shows "decodeAreaModeFromBankstates b i = Inl TypeError"
  using assms by (cases b) (auto simp: decodeAreaModeFromBankstates_def)

lemma decode_falsy:
  assumes "\<not> truthy b"
  shows "decodeAreaModeFromBankstates b i = Inr ''UNKNOWN''"
    "isZoneOpenFromBanks b z bank w = Inr False"
  using assms by (simp_all add: decodeAreaModeFromBankstates_def isZoneOpenFromBanks_def)

lemma decode_normMode:
  assumes "decodeAreaModeFromBankstates b i = Inr m"
  shows "normMode m = m"
  using decode_modes[OF assms] by (cases "truthy b") (auto simp: normMode_def)

lemma pollOnce_fail_status:
  assumes "status parse (areaIndex s) (xr s) = (Inl e, x)"
  shows "pollOnce parse s = (Some e, s\<lparr>xr := x\<rparr>)"
  using assms by (simp add: pollOnce_def)

lemma pollOnce_fail_prop:
  assumes "status parse (areaIndex s) (xr s) = (Inr a, x)" "getProp a ''bankstates'' = Inl e"
  shows "pollOnce parse s = (Some e, s\<lparr>xr := x\<rparr>)"
  using assms by (simp add: pollOnce_def)

lemma pollOnce_fail_decode:
  assumes "status parse (areaIndex s) (xr s) = (Inr a, x)" "getProp a ''bankstates'' = Inr b"
    "decodeAreaModeFromBankstates b (areaIndex s) = Inl e"
  shows "pollOnce parse s = (Some e, s\<lparr>xr := x\<rparr>)"
  using assms by (simp add: pollOnce_def)

lemma pollOnce_ok_nodoor:
  assumes "status parse (areaIndex s) (xr s) = (Inr a, x)" "getProp a ''bankstates'' = Inr b"
    "decodeAreaModeFromBankstates b (areaIndex s) = Inr mode" "\<not> 0 < rollerDoorZone s"
  shows "pollOnce parse s = (None, setMode mode (s\<lparr>xr := x\<rparr>))"
  using assms by (simp add: pollOnce_def Let_def setMode_fields)

lemma pollOnce_ok_door:
  assumes "status parse (areaIndex s) (xr s) = (Inr a, x)" "getProp a ''bankstates'' = Inr b"
    "decodeAreaModeFromBankstates b (areaIndex s) = Inr mode" "0 < rollerDoorZone s"
    "isZoneOpenFromBanks b (rollerDoorZone s) (zoneOpenBank s) (zoneOpenWhenSet s) = Inr isOpen"
  shows "pollOnce parse s = (None, setGarageOpen isOpen (setMode mode (s\<lparr>xr := x\<rparr>)))"
  using assms by (simp add: pollOnce_def Let_def setMode_fields getZoneStateBanks_def)

lemma pollOnceSafe_fail:
  assumes "pollOnce parse s = (Some e, s')"
  shows "pollOnceSafe parse s =
     (s'\<lparr>xr := (xr s')\<lparr>sess := None\<rparr>,
          effects := effects s' @ [LogPollError e]
            @ (case securityService s' of None \<Rightarrow> []
               | Some svc \<Rightarrow> [Update svc StatusFault GENERAL_FAULT])\<rparr>)"
  using assms by (simp add: pollOnceSafe_def updateCharacteristic_def Let_def split: option.splits)

lemma pollOnceSafe_ok:
  assumes "pollOnce parse s = (None, s')"
  shows "pollOnceSafe parse s = s'"
  using assms by (simp add: pollOnceSafe_def)


lemma setupAccessories_security: "securityService (setupAccessories s) = Some SecurityService"
  by (simp add: setupAccessories_def updateCharacteristic_def Let_def)

lemma pollOnce_services:
  "securityService (snd (pollOnce parse s)) = securityService s"
  by (simp add: pollOnce_def Let_def setMode_fields setGarageOpen_fields
      split: prod.splits sum.splits)

lemma pollOnceSafe_security: "securityService (pollOnceSafe parse s) = securityService s"
proof -
  obtain e s' where p: "pollOnce parse s = (e, s')"
    by (cases "pollOnce parse s")
  with pollOnce_services[of parse s] have "securityService s' = securityService s"
    by simp
  with p show ?thesis
    by (cases e)
      (simp_all add: pollOnceSafe_def updateCharacteristic_def Let_def split: option.splits)
qed

lemma pollOnce_outcome:
  obtains
    (status_fails) e x where "status parse (areaIndex s) (xr s) = (Inl e, x)"
      "pollOnce parse s = (Some e, s\<lparr>xr := x\<rparr>)"
  | (no_property) a x e where "status parse (areaIndex s) (xr s) = (Inr a, x)"
      "getProp a ''bankstates'' = Inl e" "pollOnce parse s = (Some e, s\<lparr>xr := x\<rparr>)"
  | (decode_fails) a x b e where "status parse (areaIndex s) (xr s) = (Inr a, x)"
      "getProp a ''bankstates'' = Inr b"
      "decodeAreaModeFromBankstates b (areaIndex s) = Inl e"
      "pollOnce parse s = (Some e, s\<lparr>xr := x\<rparr>)"
  | (no_door) a x b mode where "status parse (areaIndex s) (xr s) = (Inr a, x)"
      "getProp a ''bankstates'' = Inr b"
      "decodeAreaModeFromBankstates b (areaIndex s) = Inr mode" "\<not> 0 < rollerDoorZone s"
      "pollOnce parse s = (None, setMode mode (s\<lparr>xr := x\<rparr>))"
  | (door) a x b mode isOpen where "status parse (areaIndex s) (xr s) = (Inr a, x)"
      "getProp a ''bankstates'' = Inr b"
      "decodeAreaModeFromBankstates b (areaIndex s) = Inr mode" "0 < rollerDoorZone s"
      "isZoneOpenFromBanks b (rollerDoorZone s) (zoneOpenBank s) (zoneOpenWhenSet s) = Inr isOpen"
      "pollOnce parse s = (None, setGarageOpen isOpen (setMode mode (s\<lparr>xr := x\<rparr>)))"
proof -
  obtain r x where st: "status parse (areaIndex s) (xr s) = (r, x)"
    by (cases "status parse (areaIndex s) (xr s)")
  show ?thesis
  proof (cases r)
    case (Inl e)
    with st status_fails pollOnce_fail_status show ?thesis by blast
  next
    case (Inr a)
    note a = this
    show ?thesis
    proof (cases "getProp a ''bankstates''")
      case (Inl e)
      with st a no_property pollOnce_fail_prop show ?thesis by blast
    next
      case (Inr b)
      note b = this
      show ?thesis
      proof (cases "decodeAreaModeFromBankstates b (areaIndex s)")
        case (Inl e)
        with st a b decode_fails pollOnce_fail_decode show ?thesis by blast
      next
        case (Inr mode)
        note m = this
        show ?thesis
        proof (cases "0 < rollerDoorZone s")
          case False
          with st a b m no_door pollOnce_ok_nodoor show ?thesis by blast
        next
          case True
          from decode_zone_ok[OF m] obtain isOpen where
            "isZoneOpenFromBanks b (rollerDoorZone s) (zoneOpenBank s) (zoneOpenWhenSet s) = Inr isOpen"
            by blast
          with st a b m True door pollOnce_ok_door show ?thesis by blast
        qed
      qed
    qed
  qed
qed

lemma snapshot_xr [simp]: "snapshot (s\<lparr>xr := x\<rparr>) = snapshot s"
  by (simp add: snapshot_def)

lemma pollOnceSafe_fail_snapshot:
  assumes "pollOnce parse s = (Some e, s')"
  shows "snapshot (pollOnceSafe parse s) = snapshot s'"
  by (simp add: pollOnceSafe_fail[OF assms] snapshot_def)

lemma pollOnceSafe_config:
  "areaIndex (pollOnceSafe parse s) = areaIndex s"
  "rollerDoorZone (pollOnceSafe parse s) = rollerDoorZone s"
  "zoneOpenBank (pollOnceSafe parse s) = zoneOpenBank s"
  "zoneOpenWhenSet (pollOnceSafe parse s) = zoneOpenWhenSet s"
proof -
  show "areaIndex (pollOnceSafe parse s) = areaIndex s"
    by (cases rule: pollOnce_outcome[of parse s])
      (simp_all add: pollOnceSafe_fail pollOnceSafe_ok setMode_fields setGarageOpen_fields)
  show "rollerDoorZone (pollOnceSafe parse s) = rollerDoorZone s"
    by (cases rule: pollOnce_outcome[of parse s])
      (simp_all add: pollOnceSafe_fail pollOnceSafe_ok setMode_fields setGarageOpen_fields)
  show "zoneOpenBank (pollOnceSafe parse s) = zoneOpenBank s"
    by (cases rule: pollOnce_outcome[of parse s])
      (simp_all add: pollOnceSafe_fail pollOnceSafe_ok setMode_fields setGarageOpen_fields)
  show "zoneOpenWhenSet (pollOnceSafe parse s) = zoneOpenWhenSet s"
    by (cases rule: pollOnce_outcome[of parse s])
      (simp_all add: pollOnceSafe_fail pollOnceSafe_ok setMode_fields setGarageOpen_fields)
qed

lemma fault_effects_quiet:
  "filter isChangeNotification
     (LogPollError e # (case sv of None \<Rightarrow> [] | Some svc \<Rightarrow> [Update svc StatusFault GENERAL_FAULT])) = []"
  by (cases sv) simp_all

subsection \<open>Timers and the registry\<close>

text \<open>
  The delay of a reset: the pulse duration when the runtime takes it as it is, and 1 ms
  for every other duration.
\<close>

lemma timerDelay_in_range:
  assumes "1 \<le> ms" "ms \<le> 2147483647"
  shows "timerDelay ms = nat ms"
  using assms by (simp add: timerDelay_def)

lemma timerDelay_clamped:
  assumes "ms < 1 \<or> 2147483647 < ms"
  shows "timerDelay ms = 1"
  using assms by (auto simp: timerDelay_def)

lemma pulseMotion_Some:
  "pulseMotion (Some svc) key s =
     s\<lparr>effects := effects s @ [Update svc MotionDetected (Flag True)],
       pendingTimers :=
         filter (\<lambda>x. Some (handle x) \<noteq> eventResetTimers s key) (pendingTimers s)
         @ [\<lparr>handle = nextHandle s, due = now s + timerDelay (eventPulseMs s),
             resetService = svc, resetKey = key\<rparr>],
       nextHandle := nextHandle s + 1,
       eventResetTimers := (eventResetTimers s)(key \<mapsto> nextHandle s)\<rparr>"
  by (cases "eventResetTimers s key")
    (simp_all add: pulseMotion_def setTimeout_def clearTimeout_def updateCharacteristic_def Let_def)

lemma agree_pending:
  assumes "timersAgree s" "x \<in> set (pendingTimers s)"
  shows "eventResetTimers s (resetKey x) = Some (handle x)" "handle x < nextHandle s"
  using assms by (auto simp: timersAgree_def list_all_iff)

lemma agree_registered:
  assumes "timersAgree s" "eventResetTimers s k = Some h" "x \<in> set (pendingTimers s)"
    "handle x = h"
  shows "resetKey x = k"
proof -
  from assms(1,2) obtain y where y: "y \<in> set (pendingTimers s)" "handle y = h" "resetKey y = k"
    by (auto simp: timersAgree_def)
  have "distinct (map handle (pendingTimers s))"
    using assms(1) by (simp add: timersAgree_def)
  with y assms(3,4) have "x = y"
    by (metis distinct_map inj_onD)
  with y show ?thesis by simp
qed

lemma agree_filter_key:
  assumes "timersAgree s"
  shows "filter (\<lambda>x. resetKey x = key)
           (filter (\<lambda>x. Some (handle x) \<noteq> eventResetTimers s key) (pendingTimers s)) = []"
  using agree_pending(1)[OF assms] by (auto simp: filter_empty_conv)

lemma agree_filter_other:
  assumes "timersAgree s" "key' \<noteq> key"
  shows "filter (\<lambda>x. resetKey x = key')
           (filter (\<lambda>x. Some (handle x) \<noteq> eventResetTimers s key) (pendingTimers s))
         = filter (\<lambda>x. resetKey x = key') (pendingTimers s)"
proof -
  have "\<And>x. x \<in> set (pendingTimers s) \<Longrightarrow> resetKey x = key' \<Longrightarrow>
          Some (handle x) \<noteq> eventResetTimers s key"
    using agree_registered[OF assms(1)] assms(2) by metis
  then show ?thesis
    unfolding filter_filter by (intro filter_cong refl) auto
qed

lemma timersAgree_pulseMotion:
  assumes "timersAgree s"
  shows "timersAgree (pulseMotion service key s)"
proof (cases service)
  case None
  then show ?thesis using assms by (simp add: pulseMotion_def)
next
  case (Some svc)
  let ?keep = "filter (\<lambda>x. Some (handle x) \<noteq> eventResetTimers s key) (pendingTimers s)"
  have k1: "\<And>x. x \<in> set ?keep \<Longrightarrow> resetKey x \<noteq> key"
    using agree_pending(1)[OF assms] by auto
  have k2: "\<And>x. x \<in> set ?keep \<Longrightarrow>
      eventResetTimers s (resetKey x) = Some (handle x) \<and> handle x < nextHandle s"
    using agree_pending[OF assms] by auto
  have d: "distinct (map handle ?keep)"
    using assms by (simp add: timersAgree_def distinct_map_filter)
  have r: "\<And>k h. k \<noteq> key \<Longrightarrow> eventResetTimers s k = Some h \<Longrightarrow>
      \<exists>y \<in> set ?keep. handle y = h \<and> resetKey y = k"
  proof -
    fix k h assume kh: "k \<noteq> key" "eventResetTimers s k = Some h"
    with assms obtain y where y: "y \<in> set (pendingTimers s)" "handle y = h" "resetKey y = k"
      by (auto simp: timersAgree_def)
    have "Some (handle y) \<noteq> eventResetTimers s key"
      using agree_registered[OF assms _ y(1)] y(3) kh(1) by metis
    with y show "\<exists>y \<in> set ?keep. handle y = h \<and> resetKey y = k"
      by auto
  qed
  have k3: "nextHandle s \<notin> handle ` set ?keep"
    using k2 by fastforce
  have a1: "list_all (\<lambda>x. ((eventResetTimers s)(key \<mapsto> nextHandle s)) (resetKey x) = Some (handle x)
                \<and> handle x < nextHandle s + 1) ?keep"
    unfolding list_all_iff
  proof
    fix x assume x: "x \<in> set ?keep"
    from k1[OF x] k2[OF x]
    show "((eventResetTimers s)(key \<mapsto> nextHandle s)) (resetKey x) = Some (handle x)
                \<and> handle x < nextHandle s + 1"
      by simp
  qed
  have a3: "\<forall>k h. ((eventResetTimers s)(key \<mapsto> nextHandle s)) k = Some h \<longrightarrow>
      (\<exists>y \<in> set (?keep @ [\<lparr>handle = nextHandle s, due = now s + timerDelay (eventPulseMs s),
             resetService = svc, resetKey = key\<rparr>]). handle y = h \<and> resetKey y = k)"
  proof (intro allI impI)
    fix k h assume kh: "((eventResetTimers s)(key \<mapsto> nextHandle s)) k = Some h"
    show "\<exists>y \<in> set (?keep @ [\<lparr>handle = nextHandle s, due = now s + timerDelay (eventPulseMs s),
             resetService = svc, resetKey = key\<rparr>]). handle y = h \<and> resetKey y = k"
    proof (cases "k = key")
      case True
      with kh show ?thesis by simp
    next
      case False
      with kh r[of k h] show ?thesis by auto
    qed
  qed
  show ?thesis
    unfolding Some pulseMotion_Some timersAgree_def
    using a1 d k3 a3 by simp
qed

lemma find_snoc_hit:
  "(\<And>x. x \<in> set xs \<Longrightarrow> \<not> P x) \<Longrightarrow> P y \<Longrightarrow> List.find P (xs @ [y]) = Some y"
  by (induction xs) simp_all

lemma find_snoc_miss:
  "(\<And>x. x \<in> set xs \<Longrightarrow> \<not> P x) \<Longrightarrow> \<not> P y \<Longrightarrow> List.find P (xs @ [y]) = None"
  by (induction xs) simp_all

lemma agree_keep:
  assumes "timersAgree s"
  shows "filter (\<lambda>x. Some (handle x) \<noteq> eventResetTimers s key) (pendingTimers s)
         = filter (\<lambda>x. resetKey x \<noteq> key) (pendingTimers s)"
proof (intro filter_cong refl)
  fix x assume x: "x \<in> set (pendingTimers s)"
  show "(Some (handle x) \<noteq> eventResetTimers s key) = (resetKey x \<noteq> key)"
    using agree_pending(1)[OF assms x] agree_registered[OF assms _ x, of key "handle x"]
    by auto
qed

lemma pulseMotion_agree:
  assumes "timersAgree s"
  shows "pulseMotion (Some svc) key s =
     s\<lparr>effects := effects s @ [Update svc MotionDetected (Flag True)],
       pendingTimers :=
         filter (\<lambda>x. resetKey x \<noteq> key) (pendingTimers s)
         @ [\<lparr>handle = nextHandle s, due = now s + timerDelay (eventPulseMs s),
             resetService = svc, resetKey = key\<rparr>],
       nextHandle := nextHandle s + 1,
       eventResetTimers := (eventResetTimers s)(key \<mapsto> nextHandle s)\<rparr>"
  by (simp add: pulseMotion_Some agree_keep[OF assms])

lemma timersAgree_advance: "timersAgree (advance d s) = timersAgree s"
  by (simp add: timersAgree_def advance_def)

lemma timersAgree_newPlatform:
  "timersAgree (newPlatform area doorName doorZone bank openWhenSet notifications pulseMs client)"
  by (simp add: timersAgree_def newPlatform_def)

lemma timersAgree_setupAccessories: "timersAgree (setupAccessories s) = timersAgree s"
  by (simp add: timersAgree_def setupAccessories_def updateCharacteristic_def Let_def)

lemma timersAgree_irrelevant:
  "timersAgree (s\<lparr>cachedMode := m\<rparr>) = timersAgree s"
  "timersAgree (s\<lparr>cachedDoorOpen := c\<rparr>) = timersAgree s"
  "timersAgree (s\<lparr>xr := x\<rparr>) = timersAgree s"
  "timersAgree (s\<lparr>effects := es\<rparr>) = timersAgree s"
  "timersAgree (logInfo msg s) = timersAgree s"
  "timersAgree (updateCharacteristic svc ch v s) = timersAgree s"
  by (simp_all add: timersAgree_def logInfo_def updateCharacteristic_def)

lemma timersAgree_setMode:
  assumes "timersAgree s"
  shows "timersAgree (setMode mode s)"
  using assms
  by (simp add: setMode_def Let_def timersAgree_irrelevant timersAgree_pulseMotion
      split: option.splits)

lemma timersAgree_setGarageOpen:
  assumes "timersAgree s"
  shows "timersAgree (setGarageOpen isOpen s)"
  using assms
  by (simp add: setGarageOpen_def Let_def timersAgree_irrelevant timersAgree_pulseMotion
      split: option.splits)

lemma timersAgree_pollOnceSafe:
  assumes "timersAgree s"
  shows "timersAgree (pollOnceSafe parse s)"
  by (cases rule: pollOnce_outcome[of parse s])
    (simp_all add: pollOnceSafe_fail pollOnceSafe_ok timersAgree_irrelevant assms
      timersAgree_setMode timersAgree_setGarageOpen)

lemma timersAgree_fireTimer:
  assumes "timersAgree s"
  shows "timersAgree (fireTimer t s)"
proof (cases "List.find (\<lambda>x. handle x = t) (pendingTimers s)")
  case None
  then show ?thesis using assms by (simp add: fireTimer_def)
next
  case (Some x)
  then have x: "x \<in> set (pendingTimers s)" "handle x = t"
    by (auto simp: find_Some_iff)
  show ?thesis
  proof (cases "due x \<le> now s")
    case False
    with Some show ?thesis using assms by (simp add: fireTimer_def)
  next
    case True
    let ?rest = "filter (\<lambda>y. handle y \<noteq> t) (pendingTimers s)"
    have st: "fireTimer t s =
        s\<lparr>pendingTimers := ?rest,
          effects := effects s @ [Update (resetService x) MotionDetected (Flag False)],
          eventResetTimers := (eventResetTimers s)(resetKey x := None)\<rparr>"
      using Some True
      by (simp add: fireTimer_def resetCallback_def clearTimeout_def updateCharacteristic_def
          Let_def)
    have d: "distinct (map handle (pendingTimers s))"
      using assms by (simp add: timersAgree_def)
    have other: "\<And>y. y \<in> set ?rest \<Longrightarrow> resetKey y \<noteq> resetKey x"
    proof
      fix y assume y: "y \<in> set ?rest" and k: "resetKey y = resetKey x"
      then have "y \<in> set (pendingTimers s)" "handle y \<noteq> handle x"
        using x by auto
      moreover have "eventResetTimers s (resetKey y) = Some (handle y)"
        using agree_pending(1)[OF assms] y by auto
      moreover have "eventResetTimers s (resetKey x) = Some (handle x)"
        by (rule agree_pending(1)[OF assms x(1)])
      ultimately show False using k by simp
    qed
    have a1: "list_all (\<lambda>y. ((eventResetTimers s)(resetKey x := None)) (resetKey y) = Some (handle y)
                 \<and> handle y < nextHandle s) ?rest"
      unfolding list_all_iff
    proof
      fix y assume y: "y \<in> set ?rest"
      then have "y \<in> set (pendingTimers s)" by simp
      from agree_pending[OF assms this] other[OF y]
      show "((eventResetTimers s)(resetKey x := None)) (resetKey y) = Some (handle y)
                 \<and> handle y < nextHandle s"
        by simp
    qed
    have a2: "distinct (map handle ?rest)"
      using d by (simp add: distinct_map_filter)
    have a3: "\<forall>k h. ((eventResetTimers s)(resetKey x := None)) k = Some h \<longrightarrow>
        (\<exists>y \<in> set ?rest. handle y = h \<and> resetKey y = k)"
    proof (intro allI impI)
      fix k h assume kh: "((eventResetTimers s)(resetKey x := None)) k = Some h"
      then have k: "k \<noteq> resetKey x" "eventResetTimers s k = Some h"
        by (auto split: if_splits)
      with assms obtain y where y: "y \<in> set (pendingTimers s)" "handle y = h" "resetKey y = k"
        by (auto simp: timersAgree_def)
      have "handle y \<noteq> t"
        using agree_registered[OF assms agree_pending(1)[OF assms x(1)] y(1)] y(3) k(1) x(2)
        by auto
      with y show "\<exists>y \<in> set ?rest. handle y = h \<and> resetKey y = k"
        by auto
    qed
    show ?thesis
      unfolding st timersAgree_def using a1 a2 a3 by simp
  qed
qed

lemma pulseMotion_None: "pulseMotion None key s = s"
  by (simp add: pulseMotion_def)

subsection \<open>The claims about the reconciler\<close>

text \<open>
  C4: the poll is idempotent.  From any state (any cached snapshot), when a poll cycle has
  run on a status reply and the next cycle receives a reply with the same \<open>bankstates\<close>,
  the second cycle adds no change notification: what it adds to the effects holds no
  level-state update and no pulse activation, it schedules or cancels no timer, and the
  snapshot stays as the first cycle left it.
\<close>

theorem second_poll_is_silent:
  assumes first: "status parse (areaIndex s) (xr s) = (Inr a1, x1)"
      and s1: "s1 = pollOnceSafe parse s"
      and second: "status parse (areaIndex s1) (xr s1) = (Inr a2, x2)"
      and same: "getProp a2 ''bankstates'' = getProp a1 ''bankstates''"
  shows "\<exists>new. effects (pollOnceSafe parse s1) = effects s1 @ new
           \<and> filter isChangeNotification new = []
           \<and> pendingTimers (pollOnceSafe parse s1) = pendingTimers s1
           \<and> snapshot (pollOnceSafe parse s1) = snapshot s1"
proof (cases "\<exists>b mode. getProp a1 ''bankstates'' = Inr b
                \<and> decodeAreaModeFromBankstates b (areaIndex s) = Inr mode")
  case True
  then obtain b mode where b: "getProp a1 ''bankstates'' = Inr b"
      and m: "decodeAreaModeFromBankstates b (areaIndex s) = Inr mode"
    by blast
  have cfg: "areaIndex s1 = areaIndex s" "rollerDoorZone s1 = rollerDoorZone s"
      "zoneOpenBank s1 = zoneOpenBank s" "zoneOpenWhenSet s1 = zoneOpenWhenSet s"
    by (simp_all add: s1 pollOnceSafe_config)
  have b2: "getProp a2 ''bankstates'' = Inr b"
    using same b by simp
  have m2: "decodeAreaModeFromBankstates b (areaIndex s1) = Inr mode"
    using m cfg by simp
  have nm: "normMode mode = mode"
    by (rule decode_normMode[OF m])
  show ?thesis
  proof (cases "0 < rollerDoorZone s")
    case False
    have c1: "cachedMode s1 = mode"
      by (simp add: s1 pollOnceSafe_ok[OF pollOnce_ok_nodoor[OF first b m False]]
          setMode_fields nm)
    have nd: "\<not> 0 < rollerDoorZone s1"
      using False cfg by simp
    have "pollOnceSafe parse s1 = setMode mode (s1\<lparr>xr := x2\<rparr>)"
      by (rule pollOnceSafe_ok[OF pollOnce_ok_nodoor[OF second b2 m2 nd]])
    also have "\<dots> = s1\<lparr>xr := x2\<rparr>"
      by (rule setMode_same) (simp add: nm c1)
    finally show ?thesis
      by simp
  next
    case True
    from decode_zone_ok[OF m] obtain isOpen where
      z: "isZoneOpenFromBanks b (rollerDoorZone s) (zoneOpenBank s) (zoneOpenWhenSet s) = Inr isOpen"
      by blast
    have z2: "isZoneOpenFromBanks b (rollerDoorZone s1) (zoneOpenBank s1) (zoneOpenWhenSet s1)
        = Inr isOpen"
      using z cfg by simp
    have c1: "cachedMode s1 = mode" "cachedDoorOpen s1 = Some isOpen"
      by (simp_all add: s1 pollOnceSafe_ok[OF pollOnce_ok_door[OF first b m True z]]
          setMode_fields setGarageOpen_fields nm)
    have d: "0 < rollerDoorZone s1"
      using True cfg by simp
    have "pollOnceSafe parse s1 = setGarageOpen isOpen (setMode mode (s1\<lparr>xr := x2\<rparr>))"
      by (rule pollOnceSafe_ok[OF pollOnce_ok_door[OF second b2 m2 d z2]])
    also have "setMode mode (s1\<lparr>xr := x2\<rparr>) = s1\<lparr>xr := x2\<rparr>"
      by (rule setMode_same) (simp add: nm c1)
    also have "setGarageOpen isOpen (s1\<lparr>xr := x2\<rparr>) = s1\<lparr>xr := x2\<rparr>"
      by (rule setGarageOpen_same) (simp add: c1)
    finally show ?thesis
      by simp
  qed
next
  case False
  have cfg: "areaIndex s1 = areaIndex s"
    by (simp add: s1 pollOnceSafe_config)
  from False have "\<exists>e. pollOnce parse s1 = (Some e, s1\<lparr>xr := x2\<rparr>)"
  proof (cases "getProp a1 ''bankstates''")
    case (Inl e)
    then have "getProp a2 ''bankstates'' = Inl e"
      using same by simp
    from pollOnce_fail_prop[OF second this] show ?thesis
      by blast
  next
    case (Inr b)
    with False obtain e where "decodeAreaModeFromBankstates b (areaIndex s) = Inl e"
      by (cases "decodeAreaModeFromBankstates b (areaIndex s)") auto
    then have "decodeAreaModeFromBankstates b (areaIndex s1) = Inl e"
      using cfg by simp
    moreover have "getProp a2 ''bankstates'' = Inr b"
      using same Inr by simp
    ultimately show ?thesis
      using pollOnce_fail_decode[OF second] by blast
  qed
  then obtain e where "pollOnce parse s1 = (Some e, s1\<lparr>xr := x2\<rparr>)"
    by blast
  from pollOnceSafe_fail[OF this] show ?thesis
    using fault_effects_quiet[of e "securityService s1"] by (simp add: snapshot_def)
qed


theorem second_poll_is_silent_witness:
  "fst (status exampleParse (areaIndex steadyPlatform) (xr steadyPlatform))
     = Inr (JObject [(''bankstates'', JString ''040000010000'')])
   \<and> fst (status exampleParse (areaIndex (pollOnceSafe exampleParse steadyPlatform))
              (xr (pollOnceSafe exampleParse steadyPlatform)))
     = Inr (JObject [(''bankstates'', JString ''040000010000'')])
   \<and> snapshot (pollOnceSafe exampleParse steadyPlatform) = (''AWAY'', Some True)
   \<and> (\<exists>new. effects (pollOnceSafe exampleParse (pollOnceSafe exampleParse steadyPlatform))
               = effects (pollOnceSafe exampleParse steadyPlatform) @ new
            \<and> filter isChangeNotification new = []
            \<and> pendingTimers (pollOnceSafe exampleParse (pollOnceSafe exampleParse steadyPlatform))
               = pendingTimers (pollOnceSafe exampleParse steadyPlatform)
            \<and> snapshot (pollOnceSafe exampleParse (pollOnceSafe exampleParse steadyPlatform))
               = snapshot (pollOnceSafe exampleParse steadyPlatform))"
proof -
  let ?a = "JObject [(''bankstates'', JString ''040000010000'')]"
  let ?s1 = "pollOnceSafe exampleParse steadyPlatform"
  have f1: "fst (status exampleParse (areaIndex steadyPlatform) (xr steadyPlatform)) = Inr ?a"
    by code_simp
  have f2: "fst (status exampleParse (areaIndex ?s1) (xr ?s1)) = Inr ?a"
    by code_simp
  have f3: "snapshot ?s1 = (''AWAY'', Some True)"
    by code_simp
  have h1: "status exampleParse (areaIndex steadyPlatform) (xr steadyPlatform)
      = (Inr ?a, snd (status exampleParse (areaIndex steadyPlatform) (xr steadyPlatform)))"
    using f1 by (metis prod.collapse)
  have h2: "status exampleParse (areaIndex ?s1) (xr ?s1)
      = (Inr ?a, snd (status exampleParse (areaIndex ?s1) (xr ?s1)))"
    using f2 by (metis prod.collapse)
  from second_poll_is_silent[OF h1 refl h2 refl] f1 f2 f3 show ?thesis
    by blast
qed

text \<open>
  C5, as the specification states it: the snapshot is updated only by a poll cycle that
  completes decoding.  Here the first poll has cached \<open>AWAY\<close> and an open door; the reply
  to the second poll carries an empty blob, from which nothing is decoded (it is falsy,
  and both decoders return at their guard), and the second poll replaces the snapshot by
  \<open>UNKNOWN\<close> and a closed door.
\<close>

theorem snapshot_without_decode_counterexample:
  "snapshot (pollOnceSafe exampleParse examplePlatform) = (''AWAY'', Some True)
   \<and> fst (status exampleParse (areaIndex (pollOnceSafe exampleParse examplePlatform))
              (xr (pollOnceSafe exampleParse examplePlatform)))
       = Inr (JObject [(''bankstates'', JString [])])
   \<and> \<not> truthy (JString [])
   \<and> snapshot (pollOnceSafe exampleParse (pollOnceSafe exampleParse examplePlatform))
       = (''UNKNOWN'', Some False)"
  by code_simp

text \<open>
  C5, amended: what a poll cycle does to the snapshot, by the status reply it receives.
  A cycle raises an error when the status call fails, when reading \<open>bankstates\<close> off the
  reply throws (the reply is \<open>null\<close>), or when \<open>bankstates\<close> is a truthy value that is not a
  string; it then leaves both cached fields as they were, and \<open>pollOnceSafe\<close> clears the
  session token.  A cycle whose reply carries a non-empty blob raises no error and caches
  the mode decoded from the blob and, when a door zone is configured, the door state
  decoded from it.  A cycle whose reply carries no blob or an empty one raises no error
  either: with nothing decoded it caches \<open>UNKNOWN\<close> and, when a door zone is configured, a
  closed door.  The five cases cover every reply.
\<close>

theorem snapshot_follows_reply:
  "(\<forall>e x. status parse (areaIndex s) (xr s) = (Inl e, x) \<longrightarrow>
      fst (pollOnce parse s) = Some e
      \<and> snapshot (snd (pollOnce parse s)) = snapshot s
      \<and> snapshot (pollOnceSafe parse s) = snapshot s
      \<and> sess (xr (pollOnceSafe parse s)) = None)
   \<and> (\<forall>a x e. status parse (areaIndex s) (xr s) = (Inr a, x)
        \<and> getProp a ''bankstates'' = Inl e \<longrightarrow>
      fst (pollOnce parse s) = Some e
      \<and> snapshot (snd (pollOnce parse s)) = snapshot s
      \<and> snapshot (pollOnceSafe parse s) = snapshot s
      \<and> sess (xr (pollOnceSafe parse s)) = None)
   \<and> (\<forall>a x b. status parse (areaIndex s) (xr s) = (Inr a, x)
        \<and> getProp a ''bankstates'' = Inr b \<and> truthy b \<and> (\<forall>blob. b \<noteq> JString blob) \<longrightarrow>
      fst (pollOnce parse s) = Some TypeError
      \<and> snapshot (snd (pollOnce parse s)) = snapshot s
      \<and> snapshot (pollOnceSafe parse s) = snapshot s
      \<and> sess (xr (pollOnceSafe parse s)) = None)
   \<and> (\<forall>a x blob. status parse (areaIndex s) (xr s) = (Inr a, x)
        \<and> getProp a ''bankstates'' = Inr (JString blob) \<and> blob \<noteq> [] \<longrightarrow>
      fst (pollOnce parse s) = None
      \<and> decodeAreaModeFromBankstates (JString blob) (areaIndex s)
          = Inr (cachedMode (pollOnceSafe parse s))
      \<and> (if 0 < rollerDoorZone s
         then \<exists>isOpen. isZoneOpenFromBanks (JString blob) (rollerDoorZone s) (zoneOpenBank s)
                          (zoneOpenWhenSet s) = Inr isOpen
               \<and> cachedDoorOpen (pollOnceSafe parse s) = Some isOpen
         else cachedDoorOpen (pollOnceSafe parse s) = cachedDoorOpen s))
   \<and> (\<forall>a x b. status parse (areaIndex s) (xr s) = (Inr a, x)
        \<and> getProp a ''bankstates'' = Inr b \<and> \<not> truthy b \<longrightarrow>
      fst (pollOnce parse s) = None
      \<and> cachedMode (pollOnceSafe parse s) = ''UNKNOWN''
      \<and> cachedDoorOpen (pollOnceSafe parse s)
          = (if 0 < rollerDoorZone s then Some False else cachedDoorOpen s))"
proof -
  have failed: "\<And>e x. pollOnce parse s = (Some e, s\<lparr>xr := x\<rparr>) \<Longrightarrow>
      fst (pollOnce parse s) = Some e
      \<and> snapshot (snd (pollOnce parse s)) = snapshot s
      \<and> snapshot (pollOnceSafe parse s) = snapshot s
      \<and> sess (xr (pollOnceSafe parse s)) = None"
    by (simp add: pollOnceSafe_fail snapshot_def)
  have c1: "\<And>e x. status parse (areaIndex s) (xr s) = (Inl e, x) \<Longrightarrow>
      fst (pollOnce parse s) = Some e
      \<and> snapshot (snd (pollOnce parse s)) = snapshot s
      \<and> snapshot (pollOnceSafe parse s) = snapshot s
      \<and> sess (xr (pollOnceSafe parse s)) = None"
    by (rule failed) (rule pollOnce_fail_status)
  have c2: "\<And>a x e. status parse (areaIndex s) (xr s) = (Inr a, x) \<Longrightarrow>
      getProp a ''bankstates'' = Inl e \<Longrightarrow>
      fst (pollOnce parse s) = Some e
      \<and> snapshot (snd (pollOnce parse s)) = snapshot s
      \<and> snapshot (pollOnceSafe parse s) = snapshot s
      \<and> sess (xr (pollOnceSafe parse s)) = None"
    by (rule failed) (rule pollOnce_fail_prop)
  have c3: "\<And>a x b. status parse (areaIndex s) (xr s) = (Inr a, x) \<Longrightarrow>
      getProp a ''bankstates'' = Inr b \<Longrightarrow> truthy b \<Longrightarrow> \<forall>blob. b \<noteq> JString blob \<Longrightarrow>
      fst (pollOnce parse s) = Some TypeError
      \<and> snapshot (snd (pollOnce parse s)) = snapshot s
      \<and> snapshot (pollOnceSafe parse s) = snapshot s
      \<and> sess (xr (pollOnceSafe parse s)) = None"
  proof -
    fix a x b
    assume st: "status parse (areaIndex s) (xr s) = (Inr a, x)"
        "getProp a ''bankstates'' = Inr b"
      and b: "truthy b" "\<forall>blob. b \<noteq> JString blob"
    have "decodeAreaModeFromBankstates b (areaIndex s) = Inl TypeError"
      by (rule decode_nonstring) (use b in simp_all)
    from failed[OF pollOnce_fail_decode[OF st this]]
    show "fst (pollOnce parse s) = Some TypeError
      \<and> snapshot (snd (pollOnce parse s)) = snapshot s
      \<and> snapshot (pollOnceSafe parse s) = snapshot s
      \<and> sess (xr (pollOnceSafe parse s)) = None" .
  qed
  have c4: "\<And>a x blob. status parse (areaIndex s) (xr s) = (Inr a, x) \<Longrightarrow>
      getProp a ''bankstates'' = Inr (JString blob) \<Longrightarrow> blob \<noteq> [] \<Longrightarrow>
      fst (pollOnce parse s) = None
      \<and> decodeAreaModeFromBankstates (JString blob) (areaIndex s)
          = Inr (cachedMode (pollOnceSafe parse s))
      \<and> (if 0 < rollerDoorZone s
         then \<exists>isOpen. isZoneOpenFromBanks (JString blob) (rollerDoorZone s) (zoneOpenBank s)
                          (zoneOpenWhenSet s) = Inr isOpen
               \<and> cachedDoorOpen (pollOnceSafe parse s) = Some isOpen
         else cachedDoorOpen (pollOnceSafe parse s) = cachedDoorOpen s)"
  proof -
    fix a x blob
    assume st: "status parse (areaIndex s) (xr s) = (Inr a, x)"
        "getProp a ''bankstates'' = Inr (JString blob)"
      and b: "blob \<noteq> []"
    obtain mode where m: "decodeAreaModeFromBankstates (JString blob) (areaIndex s) = Inr mode"
      using decode_string[OF b] by blast
    have nm: "normMode mode = mode"
      by (rule decode_normMode[OF m])
    show "fst (pollOnce parse s) = None
      \<and> decodeAreaModeFromBankstates (JString blob) (areaIndex s)
          = Inr (cachedMode (pollOnceSafe parse s))
      \<and> (if 0 < rollerDoorZone s
         then \<exists>isOpen. isZoneOpenFromBanks (JString blob) (rollerDoorZone s) (zoneOpenBank s)
                          (zoneOpenWhenSet s) = Inr isOpen
               \<and> cachedDoorOpen (pollOnceSafe parse s) = Some isOpen
         else cachedDoorOpen (pollOnceSafe parse s) = cachedDoorOpen s)"
    proof (cases "0 < rollerDoorZone s")
      case False
      note p = pollOnce_ok_nodoor[OF st m False]
      show ?thesis
        using False by (simp add: p pollOnceSafe_ok[OF p] m setMode_fields nm)
    next
      case True
      from decode_zone_ok[OF m] obtain isOpen where
        z: "isZoneOpenFromBanks (JString blob) (rollerDoorZone s) (zoneOpenBank s)
              (zoneOpenWhenSet s) = Inr isOpen"
        by blast
      note p = pollOnce_ok_door[OF st m True z]
      show ?thesis
        using True
        by (simp add: p pollOnceSafe_ok[OF p] m z setMode_fields setGarageOpen_fields nm)
    qed
  qed
  have c5: "\<And>a x b. status parse (areaIndex s) (xr s) = (Inr a, x) \<Longrightarrow>
      getProp a ''bankstates'' = Inr b \<Longrightarrow> \<not> truthy b \<Longrightarrow>
      fst (pollOnce parse s) = None
      \<and> cachedMode (pollOnceSafe parse s) = ''UNKNOWN''
      \<and> cachedDoorOpen (pollOnceSafe parse s)
          = (if 0 < rollerDoorZone s then Some False else cachedDoorOpen s)"
  proof -
    fix a x b
    assume st: "status parse (areaIndex s) (xr s) = (Inr a, x)"
        "getProp a ''bankstates'' = Inr b"
      and b: "\<not> truthy b"
    note m = decode_falsy(1)[OF b, of "areaIndex s"]
    note z = decode_falsy(2)[OF b, of "rollerDoorZone s" "zoneOpenBank s" "zoneOpenWhenSet s"]
    show "fst (pollOnce parse s) = None
      \<and> cachedMode (pollOnceSafe parse s) = ''UNKNOWN''
      \<and> cachedDoorOpen (pollOnceSafe parse s)
          = (if 0 < rollerDoorZone s then Some False else cachedDoorOpen s)"
    proof (cases "0 < rollerDoorZone s")
      case False
      note p = pollOnce_ok_nodoor[OF st m False]
      show ?thesis
        using False by (simp add: p pollOnceSafe_ok[OF p] setMode_fields normMode_def)
    next
      case True
      note p = pollOnce_ok_door[OF st m True z]
      show ?thesis
        using True
        by (simp add: p pollOnceSafe_ok[OF p] setMode_fields setGarageOpen_fields normMode_def)
    qed
  qed
  show ?thesis
    using c1 c2 c3 c4 c5 by blast
qed

theorem snapshot_follows_reply_witness:
  "fst (status exampleParse (areaIndex offlinePlatform) (xr offlinePlatform))
      = Inl TransportError
   \<and> snapshot (pollOnceSafe exampleParse offlinePlatform) = snapshot offlinePlatform
   \<and> sess (xr (pollOnceSafe exampleParse offlinePlatform)) = None
   \<and> fst (status oddParse (areaIndex nullReplyPlatform) (xr nullReplyPlatform)) = Inr JNull
   \<and> getProp JNull ''bankstates'' = Inl TypeError
   \<and> snapshot (pollOnceSafe oddParse nullReplyPlatform) = snapshot nullReplyPlatform
   \<and> fst (status oddParse (areaIndex numberBlobPlatform) (xr numberBlobPlatform))
      = Inr (JObject [(''bankstates'', JNumber 7)])
   \<and> truthy (JNumber 7)
   \<and> fst (pollOnce oddParse numberBlobPlatform) = Some TypeError
   \<and> snapshot (pollOnceSafe oddParse numberBlobPlatform) = snapshot numberBlobPlatform
   \<and> fst (status exampleParse (areaIndex examplePlatform) (xr examplePlatform))
      = Inr (JObject [(''bankstates'', JString ''040000010000'')])
   \<and> fst (pollOnce exampleParse examplePlatform) = None
   \<and> decodeAreaModeFromBankstates (JString ''040000010000'') (areaIndex examplePlatform)
      = Inr (cachedMode (pollOnceSafe exampleParse examplePlatform))
   \<and> snapshot examplePlatform = (''UNKNOWN'', None)
   \<and> snapshot (pollOnceSafe exampleParse examplePlatform) = (''AWAY'', Some True)
   \<and> fst (status exampleParse (areaIndex (pollOnceSafe exampleParse examplePlatform))
             (xr (pollOnceSafe exampleParse examplePlatform)))
      = Inr (JObject [(''bankstates'', JString [])])
   \<and> \<not> truthy (JString [])
   \<and> 0 < rollerDoorZone (pollOnceSafe exampleParse examplePlatform)
   \<and> fst (pollOnce exampleParse (pollOnceSafe exampleParse examplePlatform)) = None
   \<and> cachedMode (pollOnceSafe exampleParse (pollOnceSafe exampleParse examplePlatform))
      = ''UNKNOWN''
   \<and> cachedDoorOpen (pollOnceSafe exampleParse (pollOnceSafe exampleParse examplePlatform))
      = Some False"
proof -
  let ?s1 = "pollOnceSafe exampleParse examplePlatform"
  let ?armed = "JObject [(''bankstates'', JString ''040000010000'')]"
  let ?empty = "JObject [(''bankstates'', JString [])]"
  let ?number = "JObject [(''bankstates'', JNumber 7)]"
  have f1: "fst (status exampleParse (areaIndex offlinePlatform) (xr offlinePlatform))
      = Inl TransportError"
    by code_simp
  have f2: "fst (status oddParse (areaIndex nullReplyPlatform) (xr nullReplyPlatform)) = Inr JNull"
    by code_simp
  have f3: "fst (status oddParse (areaIndex numberBlobPlatform) (xr numberBlobPlatform))
      = Inr ?number"
    by code_simp
  have f4: "fst (status exampleParse (areaIndex examplePlatform) (xr examplePlatform))
      = Inr ?armed"
    by code_simp
  have f5: "fst (status exampleParse (areaIndex ?s1) (xr ?s1)) = Inr ?empty"
    by code_simp
  have v: "snapshot examplePlatform = (''UNKNOWN'', None)"
      "snapshot ?s1 = (''AWAY'', Some True)"
      "0 < rollerDoorZone ?s1"
    by code_simp+
  have g: "getProp JNull ''bankstates'' = Inl TypeError"
      "getProp ?number ''bankstates'' = Inr (JNumber 7)"
      "getProp ?armed ''bankstates'' = Inr (JString ''040000010000'')"
      "getProp ?empty ''bankstates'' = Inr (JString [])"
      "truthy (JNumber 7)" "\<forall>blob. JNumber 7 \<noteq> JString blob"
      "''040000010000'' \<noteq> []" "\<not> truthy (JString [])"
    by simp_all
  have h1: "status exampleParse (areaIndex offlinePlatform) (xr offlinePlatform)
      = (Inl TransportError, snd (status exampleParse (areaIndex offlinePlatform) (xr offlinePlatform)))"
    using f1 by (metis prod.collapse)
  have h2: "status oddParse (areaIndex nullReplyPlatform) (xr nullReplyPlatform)
      = (Inr JNull, snd (status oddParse (areaIndex nullReplyPlatform) (xr nullReplyPlatform)))"
    using f2 by (metis prod.collapse)
  have h3: "status oddParse (areaIndex numberBlobPlatform) (xr numberBlobPlatform)
      = (Inr ?number, snd (status oddParse (areaIndex numberBlobPlatform) (xr numberBlobPlatform)))"
    using f3 by (metis prod.collapse)
  have h4: "status exampleParse (areaIndex examplePlatform) (xr examplePlatform)
      = (Inr ?armed, snd (status exampleParse (areaIndex examplePlatform) (xr examplePlatform)))"
    using f4 by (metis prod.collapse)
  have h5: "status exampleParse (areaIndex ?s1) (xr ?s1)
      = (Inr ?empty, snd (status exampleParse (areaIndex ?s1) (xr ?s1)))"
    using f5 by (metis prod.collapse)
  from snapshot_follows_reply[of exampleParse offlinePlatform] h1
  have c1: "snapshot (pollOnceSafe exampleParse offlinePlatform) = snapshot offlinePlatform"
      "sess (xr (pollOnceSafe exampleParse offlinePlatform)) = None"
    by blast+
  from snapshot_follows_reply[of oddParse nullReplyPlatform] h2 g(1)
  have c2: "snapshot (pollOnceSafe oddParse nullReplyPlatform) = snapshot nullReplyPlatform"
    by blast
  from snapshot_follows_reply[of oddParse numberBlobPlatform] h3 g(2,5,6)
  have c3: "fst (pollOnce oddParse numberBlobPlatform) = Some TypeError"
      "snapshot (pollOnceSafe oddParse numberBlobPlatform) = snapshot numberBlobPlatform"
    by blast+
  from snapshot_follows_reply[of exampleParse examplePlatform] h4 g(3,7)
  have c4: "fst (pollOnce exampleParse examplePlatform) = None"
      "decodeAreaModeFromBankstates (JString ''040000010000'') (areaIndex examplePlatform)
        = Inr (cachedMode ?s1)"
    by blast+
  from snapshot_follows_reply[of exampleParse ?s1] h5 g(4,8)
  have "fst (pollOnce exampleParse ?s1) = None
      \<and> cachedMode (pollOnceSafe exampleParse ?s1) = ''UNKNOWN''
      \<and> cachedDoorOpen (pollOnceSafe exampleParse ?s1)
          = (if 0 < rollerDoorZone ?s1 then Some False else cachedDoorOpen ?s1)"
    by blast
  then have c5: "fst (pollOnce exampleParse ?s1) = None"
      "cachedMode (pollOnceSafe exampleParse ?s1) = ''UNKNOWN''"
      "cachedDoorOpen (pollOnceSafe exampleParse ?s1) = Some False"
    using v(3) by simp_all
  show ?thesis
    using f1 f2 f3 f4 f5 v g(1,5,8) c1 c2 c3 c4 c5 by (intro conjI)
qed

text \<open>
  C8, as the specification states it: once a poll has decoded a mode from a status blob,
  no later poll caches \<open>UNKNOWN\<close>.  Here the first poll decodes \<open>AWAY\<close> from a blob and
  the second, whose reply carries an empty blob, caches \<open>UNKNOWN\<close>.
\<close>

theorem unknown_after_decode_counterexample:
  "fst (pollOnce exampleParse examplePlatform) = None
   \<and> cachedMode (pollOnceSafe exampleParse examplePlatform) = ''AWAY''
   \<and> fst (pollOnce exampleParse (pollOnceSafe exampleParse examplePlatform)) = None
   \<and> cachedMode (pollOnceSafe exampleParse (pollOnceSafe exampleParse examplePlatform))
       = ''UNKNOWN''"
  by code_simp

text \<open>
  C8, amended: the cached mode is \<open>UNKNOWN\<close> when the platform is constructed; a poll
  cycle that raises an error leaves the cached mode as it was; a cycle that raises none
  caches \<open>UNKNOWN\<close> exactly when the \<open>bankstates\<close> of its status reply is missing or empty
  (falsy), whatever earlier cycles decoded, and caches one of \<open>DISARMED\<close>, \<open>STAY\<close>, \<open>AWAY\<close>
  when the reply carries a non-empty blob.
\<close>

theorem unknown_iff_blob_missing:
  "cachedMode (newPlatform area doorName doorZone bank openWhenSet notifications pulseMs client)
     = ''UNKNOWN''
   \<and> (fst (pollOnce parse s) \<noteq> None \<longrightarrow> cachedMode (pollOnceSafe parse s) = cachedMode s)
   \<and> (fst (pollOnce parse s) = None \<longrightarrow>
      (\<exists>a x b.
         status parse (areaIndex s) (xr s) = (Inr a, x)
         \<and> getProp a ''bankstates'' = Inr b
         \<and> (cachedMode (pollOnceSafe parse s) = ''UNKNOWN'') = (\<not> truthy b)
         \<and> (truthy b \<longrightarrow>
              cachedMode (pollOnceSafe parse s) \<in> {''DISARMED'', ''STAY'', ''AWAY''})))"
proof (intro conjI)
  show "cachedMode (newPlatform area doorName doorZone bank openWhenSet notifications pulseMs
      client) = ''UNKNOWN''"
    by (simp add: newPlatform_def)
next
  show "fst (pollOnce parse s) \<noteq> None \<longrightarrow> cachedMode (pollOnceSafe parse s) = cachedMode s"
    by (cases rule: pollOnce_outcome[of parse s]) (simp_all add: pollOnceSafe_fail)
next
  have modes: "\<And>b mode. decodeAreaModeFromBankstates b (areaIndex s) = Inr mode \<Longrightarrow>
      (mode = ''UNKNOWN'') = (\<not> truthy b)
      \<and> (truthy b \<longrightarrow> mode \<in> {''DISARMED'', ''STAY'', ''AWAY''})"
    using decode_modes by fastforce
  show "fst (pollOnce parse s) = None \<longrightarrow>
      (\<exists>a x b.
         status parse (areaIndex s) (xr s) = (Inr a, x)
         \<and> getProp a ''bankstates'' = Inr b
         \<and> (cachedMode (pollOnceSafe parse s) = ''UNKNOWN'') = (\<not> truthy b)
         \<and> (truthy b \<longrightarrow>
              cachedMode (pollOnceSafe parse s) \<in> {''DISARMED'', ''STAY'', ''AWAY''}))"
  proof (cases rule: pollOnce_outcome[of parse s])
    case (no_door a x b mode)
    then show ?thesis
      using pollOnceSafe_ok[OF no_door(5)] decode_normMode[OF no_door(3)] modes[OF no_door(3)]
      by (simp add: setMode_fields)
  next
    case (door a x b mode isOpen)
    then show ?thesis
      using pollOnceSafe_ok[OF door(6)] decode_normMode[OF door(3)] modes[OF door(3)]
      by (simp add: setMode_fields setGarageOpen_fields)
  qed simp_all
qed

theorem unknown_iff_blob_missing_witness:
  "fst (pollOnce exampleParse offlinePlatform) \<noteq> None
   \<and> cachedMode (pollOnceSafe exampleParse offlinePlatform) = cachedMode offlinePlatform
   \<and> fst (pollOnce exampleParse examplePlatform) = None
   \<and> (\<exists>a x b.
         status exampleParse (areaIndex examplePlatform) (xr examplePlatform) = (Inr a, x)
         \<and> getProp a ''bankstates'' = Inr b
         \<and> truthy b
         \<and> cachedMode (pollOnceSafe exampleParse examplePlatform) \<noteq> ''UNKNOWN'')"
proof -
  have off: "fst (pollOnce exampleParse offlinePlatform) \<noteq> None"
    by code_simp
  have on: "fst (pollOnce exampleParse examplePlatform) = None"
    by code_simp
  have st: "fst (status exampleParse (areaIndex examplePlatform) (xr examplePlatform))
      = Inr (JObject [(''bankstates'', JString ''040000010000'')])"
    by code_simp
  from unknown_iff_blob_missing[of _ _ _ _ _ _ _ _ exampleParse offlinePlatform] off
  have 1: "cachedMode (pollOnceSafe exampleParse offlinePlatform) = cachedMode offlinePlatform"
    by blast
  from unknown_iff_blob_missing[of _ _ _ _ _ _ _ _ exampleParse examplePlatform] on
  obtain a x b where abx:
      "status exampleParse (areaIndex examplePlatform) (xr examplePlatform) = (Inr a, x)"
      "getProp a ''bankstates'' = Inr b"
      "(cachedMode (pollOnceSafe exampleParse examplePlatform) = ''UNKNOWN'') = (\<not> truthy b)"
    by blast
  from abx(1) st have "a = JObject [(''bankstates'', JString ''040000010000'')]"
    by simp
  with abx(2) have "truthy b"
    by auto
  with abx off on 1 show ?thesis
    by blast
qed

text \<open>
  C10: when the mode handed to \<open>setMode\<close> is \<open>UNKNOWN\<close> or any other value outside
  \<open>DISARMED\<close>, \<open>STAY\<close>, \<open>AWAY\<close> and differs from the cached mode, the security service is
  told current state \<open>DISARMED\<close> and target state \<open>DISARM\<close>; apart from the log line, the
  pulse and the cleared fault nothing else is told.  The security service is the one
  \<open>setupAccessories\<close> has registered before the first poll; no poll removes it
  (\<open>setupAccessories_security\<close>, \<open>pollOnceSafe_security\<close>).
\<close>

theorem unknown_told_as_disarmed:
  assumes "mode \<notin> {''DISARMED'', ''STAY'', ''AWAY''}"
      and "normMode mode \<noteq> cachedMode s"
      and "securityService s = Some svc"
  shows "effects (setMode mode s) =
     effects s @ [LogInfo (''[Reliance XR] MODE CHANGED => '' @ normMode mode)]
     @ (case alarmEventService s of None \<Rightarrow> [] | Some v \<Rightarrow> [Update v MotionDetected (Flag True)])
     @ [Update svc SecuritySystemCurrentState DISARMED,
        Update svc SecuritySystemTargetState DISARM,
        Update svc StatusFault NO_FAULT]"
proof -
  have "normMode mode \<noteq> ''STAY''" "normMode mode \<noteq> ''AWAY''"
    using assms(1) by (auto simp: normMode_def)
  then show ?thesis
    using setMode_effects[OF assms(2)] assms(3) by simp
qed



theorem unknown_told_as_disarmed_witness:
  "''UNKNOWN'' \<notin> {''DISARMED'', ''STAY'', ''AWAY''}
   \<and> normMode ''UNKNOWN'' \<noteq> cachedMode (pollOnceSafe exampleParse examplePlatform)
   \<and> securityService (pollOnceSafe exampleParse examplePlatform) = Some SecurityService
   \<and> effects (setMode ''UNKNOWN'' (pollOnceSafe exampleParse examplePlatform)) =
       effects (pollOnceSafe exampleParse examplePlatform)
       @ [LogInfo ''[Reliance XR] MODE CHANGED => UNKNOWN'',
          Update AlarmEventService MotionDetected (Flag True),
          Update SecurityService SecuritySystemCurrentState DISARMED,
          Update SecurityService SecuritySystemTargetState DISARM,
          Update SecurityService StatusFault NO_FAULT]"
proof -
  let ?s = "pollOnceSafe exampleParse examplePlatform"
  have h1: "''UNKNOWN'' \<notin> {''DISARMED'', ''STAY'', ''AWAY''}"
    by simp
  have h2: "normMode ''UNKNOWN'' \<noteq> cachedMode ?s"
    by code_simp
  have h3: "securityService ?s = Some SecurityService"
    by code_simp
  have a: "alarmEventService ?s = Some AlarmEventService"
    by code_simp
  have n: "normMode ''UNKNOWN'' = ''UNKNOWN''"
    by (simp add: normMode_def)
  from unknown_told_as_disarmed[OF h1 h2 h3] h1 h2 h3 show ?thesis
    unfolding a n by simp
qed

subsection \<open>The claim about the pulse notifier\<close>

text \<open>
  C9: for a pulse duration the runtime takes as it is (between 1 and 2147483647
  milliseconds), \<open>pulseMotion\<close> on a service and a key sets the signal active at once and
  leaves one pending reset for the key, due after \<open>eventPulseMs\<close>.  When it is called again
  for the key after any time \<open>d\<close> in which the reset has not fired, the signal is set active
  again with no inactive update in between, the first reset is cancelled (its handle never
  fires, however much time passes), and exactly one reset is pending for the key, due
  \<open>eventPulseMs\<close> after the second call: it does not fire earlier, and when it fires it sets
  the signal inactive and removes itself from the registry.  The pending resets and the
  registry entries of every other key are as they were.
\<close>

theorem pulse_coalesces:
  assumes "timersAgree s"
      and "1 \<le> eventPulseMs s"
      and "eventPulseMs s \<le> 2147483647"
  shows "let s1 = pulseMotion (Some svc) key s;
             s2 = pulseMotion (Some svc) key (advance d s1);
             first = \<lparr>handle = nextHandle s, due = now s + nat (eventPulseMs s),
                      resetService = svc, resetKey = key\<rparr>;
             second = \<lparr>handle = nextHandle s + 1, due = now s + d + nat (eventPulseMs s),
                       resetService = svc, resetKey = key\<rparr>
         in effects s1 = effects s @ [Update svc MotionDetected (Flag True)]
          \<and> pendingFor key s1 = [first]
          \<and> effects s2 = effects s1 @ [Update svc MotionDetected (Flag True)]
          \<and> pendingFor key s2 = [second]
          \<and> (\<forall>later. fireTimer (handle first) (advance later s2) = advance later s2)
          \<and> (\<forall>later. int later < eventPulseMs s \<longrightarrow>
                fireTimer (handle second) (advance later s2) = advance later s2)
          \<and> (\<forall>later. eventPulseMs s \<le> int later \<longrightarrow>
                effects (fireTimer (handle second) (advance later s2))
                  = effects s2 @ [Update svc MotionDetected (Flag False)]
                \<and> pendingFor key (fireTimer (handle second) (advance later s2)) = []
                \<and> eventResetTimers (fireTimer (handle second) (advance later s2)) key = None)
          \<and> (\<forall>other. other \<noteq> key \<longrightarrow>
                pendingFor other s2 = pendingFor other s
                \<and> eventResetTimers s2 other = eventResetTimers s other)"
proof -
  define p where "p = nat (eventPulseMs s)"
  have delay: "timerDelay (eventPulseMs s) = p"
    unfolding p_def by (rule timerDelay_in_range[OF assms(2,3)])
  have cfg: "\<And>e. eventPulseMs (advance d e) = eventPulseMs e"
    by (simp add: advance_def)
  let ?first = "\<lparr>handle = nextHandle s, due = now s + p,
                      resetService = svc, resetKey = key\<rparr>"
  let ?second = "\<lparr>handle = nextHandle s + 1, due = now s + d + p,
                       resetService = svc, resetKey = key\<rparr>"
  let ?others = "filter (\<lambda>x. resetKey x \<noteq> key) (pendingTimers s)"
  define s1 where "s1 = pulseMotion (Some svc) key s"
  define s2 where "s2 = pulseMotion (Some svc) key (advance d s1)"
  have s1: "s1 = s\<lparr>effects := effects s @ [Update svc MotionDetected (Flag True)],
       pendingTimers := ?others @ [?first],
       nextHandle := nextHandle s + 1,
       eventResetTimers := (eventResetTimers s)(key \<mapsto> nextHandle s)\<rparr>"
    unfolding s1_def pulseMotion_agree[OF assms(1)] delay by (rule refl)
  have a1: "timersAgree (advance d s1)"
    unfolding s1_def timersAgree_advance by (rule timersAgree_pulseMotion[OF assms(1)])
  have d1: "timerDelay (eventPulseMs (advance d s1)) = p"
    unfolding cfg by (simp add: s1 delay)
  have s2: "s2 = s\<lparr>effects := effects s @ [Update svc MotionDetected (Flag True),
                                            Update svc MotionDetected (Flag True)],
       pendingTimers := ?others @ [?second],
       nextHandle := nextHandle s + 2,
       eventResetTimers := (eventResetTimers s)(key \<mapsto> nextHandle s + 1),
       now := now s + d\<rparr>"
    unfolding s2_def pulseMotion_agree[OF a1] d1 by (simp add: s1 advance_def)
  have old: "\<And>x. x \<in> set ?others \<Longrightarrow> handle x < nextHandle s"
    using agree_pending(2)[OF assms(1)] by simp
  have f1: "\<And>later. List.find (\<lambda>x. handle x = nextHandle s) (pendingTimers (advance later s2)) = None"
    unfolding s2 advance_def using old by (simp add: find_None_iff) fastforce
  have f2: "\<And>later. List.find (\<lambda>x. handle x = nextHandle s + 1) (pendingTimers (advance later s2))
      = Some ?second"
  proof -
    fix later
    have "List.find (\<lambda>x. handle x = nextHandle s + 1) (?others @ [?second]) = Some ?second"
      by (rule find_snoc_hit) (use old in fastforce, simp)
    then show "List.find (\<lambda>x. handle x = nextHandle s + 1) (pendingTimers (advance later s2))
      = Some ?second"
      by (simp add: s2 advance_def)
  qed
  have c1: "effects s1 = effects s @ [Update svc MotionDetected (Flag True)]"
    by (simp add: s1)
  have c2: "pendingFor key s1 = [?first]"
    by (simp add: s1 pendingFor_def)
  have c3: "effects s2 = effects s1 @ [Update svc MotionDetected (Flag True)]"
    by (simp add: s1 s2)
  have c4: "pendingFor key s2 = [?second]"
    by (simp add: s2 pendingFor_def)
  have n2: "\<And>later. now (advance later s2) = now s + d + later"
    by (simp add: s2 advance_def)
  have c5: "\<forall>later. fireTimer (nextHandle s) (advance later s2) = advance later s2"
    unfolding fireTimer_def f1 by simp
  have c6: "\<forall>later. later < p \<longrightarrow>
                fireTimer (nextHandle s + 1) (advance later s2) = advance later s2"
    unfolding fireTimer_def f2 n2 by simp
  have fired: "\<And>later. p \<le> later \<Longrightarrow>
      fireTimer (nextHandle s + 1) (advance later s2)
        = resetCallback svc key (clearTimeout (nextHandle s + 1) (advance later s2))"
    unfolding fireTimer_def f2 n2 by simp
  have cleared: "\<And>later. pendingTimers (clearTimeout (nextHandle s + 1) (advance later s2))
      = ?others"
  proof -
    fix later
    have "filter (\<lambda>x. handle x \<noteq> nextHandle s + 1) ?others = ?others"
      using old by (intro filter_True) fastforce
    then show "pendingTimers (clearTimeout (nextHandle s + 1) (advance later s2)) = ?others"
      by (simp add: clearTimeout_def advance_def s2)
  qed
  have c7: "\<forall>later. p \<le> later \<longrightarrow>
                effects (fireTimer (nextHandle s + 1) (advance later s2))
                  = effects s2 @ [Update svc MotionDetected (Flag False)]
                \<and> pendingFor key (fireTimer (nextHandle s + 1) (advance later s2)) = []
                \<and> eventResetTimers (fireTimer (nextHandle s + 1) (advance later s2)) key = None"
  proof (intro allI impI)
    fix later assume l: "p \<le> later"
    show "effects (fireTimer (nextHandle s + 1) (advance later s2))
                  = effects s2 @ [Update svc MotionDetected (Flag False)]
                \<and> pendingFor key (fireTimer (nextHandle s + 1) (advance later s2)) = []
                \<and> eventResetTimers (fireTimer (nextHandle s + 1) (advance later s2)) key = None"
      unfolding fired[OF l] pendingFor_def
      using cleared[of later]
      by (simp add: resetCallback_def updateCharacteristic_def Let_def)
        (simp add: clearTimeout_def advance_def)
  qed
  have c8: "\<forall>other. other \<noteq> key \<longrightarrow>
                pendingFor other s2 = pendingFor other s
                \<and> eventResetTimers s2 other = eventResetTimers s other"
    by (auto simp: s2 pendingFor_def intro!: filter_cong)
  have lt: "\<And>later. (int later < eventPulseMs s) = (later < p)"
    using assms(2) by (auto simp: p_def)
  have le: "\<And>later. (eventPulseMs s \<le> int later) = (p \<le> later)"
    using assms(2) by (auto simp: p_def)
  show ?thesis
    using c1 c2 c3 c4 c5 c6 c7 c8
    unfolding Let_def s1_def[symmetric] s2_def[symmetric] p_def[symmetric] lt le
    by simp
qed

theorem pulse_coalesces_witness:
  "timersAgree examplePlatform
   \<and> 1 \<le> eventPulseMs examplePlatform
   \<and> eventPulseMs examplePlatform \<le> 2147483647
   \<and> pendingFor ''alarm''
        (pulseMotion (Some AlarmEventService) ''alarm''
          (advance 100 (pulseMotion (Some AlarmEventService) ''alarm'' examplePlatform)))
      = [\<lparr>handle = 1, due = 1600, resetService = AlarmEventService, resetKey = ''alarm''\<rparr>]
   \<and> effects
        (pulseMotion (Some AlarmEventService) ''alarm''
          (advance 100 (pulseMotion (Some AlarmEventService) ''alarm'' examplePlatform)))
      = effects (pulseMotion (Some AlarmEventService) ''alarm'' examplePlatform)
        @ [Update AlarmEventService MotionDetected (Flag True)]"
proof -
  have h: "timersAgree examplePlatform"
    unfolding examplePlatform_def timersAgree_setupAccessories
    by (rule timersAgree_newPlatform)
  have r: "1 \<le> eventPulseMs examplePlatform" "eventPulseMs examplePlatform \<le> 2147483647"
    by code_simp+
  have v: "nextHandle examplePlatform + 1 = 1"
      "now examplePlatform + 100 + nat (eventPulseMs examplePlatform) = 1600"
    by code_simp+
  from pulse_coalesces[OF h r, of AlarmEventService "''alarm''" 100]
  have "pendingFor ''alarm''
        (pulseMotion (Some AlarmEventService) ''alarm''
          (advance 100 (pulseMotion (Some AlarmEventService) ''alarm'' examplePlatform)))
      = [\<lparr>handle = nextHandle examplePlatform + 1,
          due = now examplePlatform + 100 + nat (eventPulseMs examplePlatform),
          resetService = AlarmEventService, resetKey = ''alarm''\<rparr>]
   \<and> effects
        (pulseMotion (Some AlarmEventService) ''alarm''
          (advance 100 (pulseMotion (Some AlarmEventService) ''alarm'' examplePlatform)))
      = effects (pulseMotion (Some AlarmEventService) ''alarm'' examplePlatform)
        @ [Update AlarmEventService MotionDetected (Flag True)]"
    unfolding Let_def by blast
  with h r show ?thesis
    unfolding v by blast
qed

section \<open>Properties of the protocol client\<close>

lemma hex16_len: "hex16 s = Some v \<Longrightarrow> length v = 16"
  by (auto simp: hex16_def split: if_splits)

lemma sessPattern1_len: "sessPattern1 s = Some v \<Longrightarrow> length v = 16"
  by (auto simp: sessPattern1_def Option.bind_eq_Some_conv dest: hex16_len)

lemma sessPattern2_len: "sessPattern2 s = Some v \<Longrightarrow> length v = 16"
  by (auto simp: sessPattern2_def Let_def Option.bind_eq_Some_conv dest: hex16_len)

lemma firstMatch_len:
  assumes "\<And>s v. p s = Some v \<Longrightarrow> length v = 16"
  shows "firstMatch p s = Some v \<Longrightarrow> length v = 16"
  using assms by (induction s) (auto split: option.splits)

lemma extractSess_len: "extractSessFromHtml t = Some v \<Longrightarrow> length v = 16"
  using firstMatch_len[of sessPattern1, OF sessPattern1_len]
    firstMatch_len[of sessPattern2, OF sessPattern2_len]
  by (auto simp: extractSessFromHtml_def split: if_splits option.splits)

lemma login_ok_hasSess:
  assumes "login s = (Inr u, s')"
  shows "hasSess s' \<and> host s' = host s"
  using assms
  by (auto simp: login_def Let_def baseUrl_def fetch_def emit_def hasSess_def
      split: sum.splits option.splits if_splits prod.splits list.splits fetch_result.splits
      dest!: extractSess_len)

lemma ensureLoggedIn_ok:
  assumes "ensureLoggedIn s = (Inr u, s')"
  shows "hasSess s' \<and> host s' = host s"
  using assms login_ok_hasSess[of s u s']
  by (auto simp: ensureLoggedIn_def split: if_splits)

lemma bodyResult_eq:
  "bodyResult parse path expectJson text =
     (if \<not> expectJson then Inr (JString text)
      else case parse text of
        None \<Rightarrow> Inl (InvalidJSON path (take 120 text))
      | Some parsed \<Rightarrow>
          (case (if truthy parsed then getProp parsed ''error'' else Inr parsed) of
             Inl e \<Rightarrow> Inl e
           | Inr err \<Rightarrow> if truthy parsed \<and> truthy err
                        then Inl (PanelErrorResponse path err) else Inr parsed))"
proof -
  have "\<And>parsed. truthy parsed \<Longrightarrow> \<exists>v. getProp parsed ''error'' = Inr v"
    by (case_tac parsed) simp_all
  then show ?thesis
    by (fastforce simp: bodyResult_def split: option.splits sum.splits)
qed

lemma request_head:
  assumes "ensureLoggedIn s0 = (Inr u, s)" "host s = Some h" "h \<noteq> []"
  shows "request parse path meth data expectJson retry s0 =
     (case fetch (requestFor s path meth data) s of
        (Inl e, s1) \<Rightarrow> (Inl e, s1)
      | (Inr text, s1) \<Rightarrow>
          if looksLikeLoginHtml text \<and> retry then
            (case login (emit (Sleep 200)
                    (emit (Warn (sessionWarning path)) s1)) of
               (Inl e, s3) \<Rightarrow> (Inl e, s3)
             | (Inr u', s3) \<Rightarrow> request parse path meth data expectJson False s3)
          else (bodyResult parse path expectJson text, s1))"
proof -
  note e = assms(1)
  have b: "baseUrl s path = Inr (''http://'' @ h @ path)"
    using assms by (simp add: baseUrl_def)
  have rf: "\<lparr>req_url = ''http://'' @ h @ path,
        req_method = (if meth = ''GET'' \<and> hasData data then ''POST'' else meth),
        req_body = (if meth \<noteq> ''GET''
                  then Some (if hasData data
                             then (''sess='' @ encodeURIComponent (sessText s)) @ ''&'' @ the data
                             else ''sess='' @ encodeURIComponent (sessText s))
                  else if hasData data
                       then Some ((''sess='' @ encodeURIComponent (sessText s)) @ ''&'' @ the data)
                  else None)\<rparr> = requestFor s path meth data"
    unfolding requestFor_def Let_def using assms(2) by simp
  have br: "\<And>reply s1. (if \<not> expectJson then (Inr (JString reply), s1)
      else case parse reply of
        None \<Rightarrow> (Inl (InvalidJSON path (take 120 reply)), s1)
      | Some parsed \<Rightarrow>
          (case (if truthy parsed then getProp parsed ''error'' else Inr parsed) of
             Inl e \<Rightarrow> (Inl e, s1)
           | Inr err \<Rightarrow> if truthy parsed \<and> truthy err
                        then (Inl (PanelErrorResponse path err), s1) else (Inr parsed, s1)))
      = (bodyResult parse path expectJson reply, s1)"
    by (simp add: bodyResult_eq split: option.splits sum.splits)
  show ?thesis
  proof (cases "fetch (requestFor s path meth data) s")
    case (Pair r s1)
    show ?thesis
    proof (cases r)
      case (Inl err)
      show ?thesis
        by (subst request.simps) (simp only: e b case_prod_conv sum.simps Let_def rf Pair Inl)
    next
      case (Inr reply)
      show ?thesis
        by (subst request.simps) (simp only: e b case_prod_conv sum.simps Let_def rf Pair Inr br)
    qed
  qed
qed

lemma ensureLoggedIn_token:
  assumes "hasSess s"
  shows "ensureLoggedIn s = (Inr (), s)"
  using assms by (simp add: ensureLoggedIn_def)

lemma fetchesOf_append: "fetchesOf (xs @ ys) = fetchesOf xs @ fetchesOf ys"
  by (induction xs rule: fetchesOf.induct) simp_all

lemma requestFor_url: "host s = Some h \<Longrightarrow> req_url (requestFor s path meth data) = ''http://'' @ h @ path"
  by (simp add: requestFor_def)

lemma fetch_Body:
  assumes "panel s = Body t # rest"
  shows "fetch req s = (Inr t, s\<lparr>trace := trace s @ [Fetch req], panel := rest\<rparr>)"
  using assms by (simp add: fetch_def emit_def)

lemma fetch_failure:
  assumes "\<And>t rest. panel s \<noteq> Body t # rest"
  shows "\<exists>s'. fetch req s = (Inl TransportError, s') \<and> trace s' = trace s @ [Fetch req]"
proof (cases "panel s")
  case Nil
  then show ?thesis by (simp add: fetch_def emit_def)
next
  case (Cons r rest)
  have "r = NetworkFailure"
  proof (cases r)
    case (Body t)
    with Cons assms[of t rest] show ?thesis by simp
  qed simp
  with Cons show ?thesis
    by (simp add: fetch_def emit_def)
qed

lemma loginRequest_eq:
  assumes "host s = Some h"
  shows "\<lparr>req_url = ''http://'' @ h @ ''/login.cgi'', req_method = ''POST'',
      req_body = Some (''lgname='' @ encodeURIComponent (username s)
                      @ ''&lgpin='' @ encodeURIComponent (pin s))\<rparr> = loginRequest s"
  using assms by (simp add: loginRequest_def)

lemma login_accepted:
  assumes "host s = Some h" "h \<noteq> []" "panel s = Body t # rest" "extractSessFromHtml t = Some v"
  shows "login s = (Inr (), s\<lparr>sess := Some v, panel := rest,
          trace := trace s @ [Fetch (loginRequest s), Info (loggedInMessage v)]\<rparr>)"
proof -
  have p: "panel (s\<lparr>sess := None\<rparr>) = Body t # rest"
    using assms(3) by simp
  show ?thesis
    unfolding login_def Let_def
    using assms(1,2,4) loginRequest_eq[OF assms(1)]
    by (simp add: baseUrl_def fetch_Body[OF p] emit_def)
qed

lemma login_rejected:
  assumes "host s = Some h" "h \<noteq> []" "panel s = Body t # rest" "extractSessFromHtml t = None"
  shows "\<exists>s'. login s = (Inl (if looksLikeLoginHtml t then LoginNotAccepted else LoginNoSess), s')
     \<and> trace s' = trace s @ [Fetch (loginRequest s)]"
proof -
  have p: "panel (s\<lparr>sess := None\<rparr>) = Body t # rest"
    using assms(3) by simp
  have "login s = (Inl (if looksLikeLoginHtml t then LoginNotAccepted else LoginNoSess),
      s\<lparr>sess := None, trace := trace s @ [Fetch (loginRequest s)], panel := rest\<rparr>)"
    unfolding login_def Let_def
    using assms(1,2,4) loginRequest_eq[OF assms(1)] by (simp add: baseUrl_def fetch_Body[OF p])
  then show ?thesis
    by simp
qed

lemma login_unreachable:
  assumes "host s = Some h" "h \<noteq> []" "\<And>t rest. panel s \<noteq> Body t # rest"
  shows "\<exists>s'. login s = (Inl TransportError, s') \<and> trace s' = trace s @ [Fetch (loginRequest s)]"
proof -
  have p: "\<And>t rest. panel (s\<lparr>sess := None\<rparr>) \<noteq> Body t # rest"
    using assms(3) by simp
  from fetch_failure[of "s\<lparr>sess := None\<rparr>" "loginRequest s", OF p]
  obtain s' where "fetch (loginRequest s) (s\<lparr>sess := None\<rparr>) = (Inl TransportError, s')"
      "trace s' = trace s @ [Fetch (loginRequest s)]"
    by auto
  then show ?thesis
    unfolding login_def Let_def
    using assms(1,2) loginRequest_eq[OF assms(1)] by (auto simp: baseUrl_def)
qed

lemma retry_attempt:
  assumes "hasSess s" "host s = Some h" "h \<noteq> []"
  shows "\<exists>s'. request parse path meth data expectJson False s =
         ((case panel s of Body t # rest \<Rightarrow> bodyResult parse path expectJson t
           | _ \<Rightarrow> Inl TransportError), s')
     \<and> trace s' = trace s @ [Fetch (requestFor s path meth data)]"
proof (cases "\<exists>t rest. panel s = Body t # rest")
  case True
  then obtain t rest where p: "panel s = Body t # rest"
    by blast
  show ?thesis
    by (intro exI[of _ "s\<lparr>trace := trace s @ [Fetch (requestFor s path meth data)], panel := rest\<rparr>"])
      (simp add: request_head[OF ensureLoggedIn_token[OF assms(1)] assms(2,3)] fetch_Body[OF p] p)
next
  case False
  then have n: "\<And>t rest. panel s \<noteq> Body t # rest"
    by blast
  from fetch_failure[OF n, of "requestFor s path meth data"]
  obtain s' where f: "fetch (requestFor s path meth data) s = (Inl TransportError, s')"
      "trace s' = trace s @ [Fetch (requestFor s path meth data)]"
    by blast
  have c: "(case panel s of Body t # rest \<Rightarrow> bodyResult parse path expectJson t
           | _ \<Rightarrow> Inl TransportError) = Inl TransportError"
    using n by (auto split: list.splits fetch_result.splits)
  show ?thesis
    using f
    by (intro exI[of _ s'])
      (simp add: request_head[OF ensureLoggedIn_token[OF assms(1)] assms(2,3)] c)
qed

lemma requestFor_cong:
  assumes "host a = host b" "sess a = sess b"
  shows "requestFor a path meth data = requestFor b path meth data"
  using assms by (simp add: requestFor_def sessText_def)

lemma loginRequest_cong:
  assumes "host a = host b" "username a = username b" "pin a = pin b"
  shows "loginRequest a = loginRequest b"
  using assms by (simp add: loginRequest_def)

text \<open>
  C3, as the specification states it, for any \<open>expectJson\<close> flag: when the retry's
  response is a login page too, the call fails.  With \<open>expectJson\<close> unset, a call whose
  first response and whose retry's response are the login page returns that page as its
  result; the requests sent are the call, the login and the retry.
\<close>

theorem retry_login_page_counterexample:
  "looksLikeLoginHtml loginPage
   \<and> panel staleClient = [Body loginPage, Body loginAccepted, Body loginPage]
   \<and> fst (request exampleParse ''/user/status.json'' ''POST'' (Some ''arsel=0'') False True
          staleClient) = Inr (JString loginPage)
   \<and> map req_url (fetchesOf (trace (snd
          (request exampleParse ''/user/status.json'' ''POST'' (Some ''arsel=0'') False True
            staleClient))))
       = [''http://panel/user/status.json'', ''http://panel/login.cgi'',
          ''http://panel/user/status.json'']"
  by code_simp

text \<open>
  C3, amended.  A call whose first response body (the response to the request it sends
  once \<open>ensureLoggedIn\<close> has returned) is classified as a login page attempts exactly
  one re-login: it logs the warning, sleeps 200 ms and sends the login request.  If the
  re-login fails, its error is surfaced and the call is not retried.  If it succeeds, the
  original call is retried exactly once and no third attempt is made: the retry is the
  request of the same path, method and form data, carrying the session token the login
  has just obtained.  The retry's response is not classified again, so when it is a login
  page too the call returns what \<open>request\<close> makes of any body: the page itself when
  \<open>expectJson\<close> is unset, the Invalid-JSON error when \<open>expectJson\<close> is set and the page is
  not JSON.  The events the call adds to the trace are given in full, so nothing else is
  sent.
\<close>

theorem relogin_once_retry_once:
  assumes "ensureLoggedIn s0 = (Inr u, s)" "host s = Some h" "h \<noteq> []"
      and "panel s = Body t1 # replies" "looksLikeLoginHtml t1"
  shows "let result = request parse path meth data expectJson True s0;
             relogin = [Fetch (requestFor s path meth data), Warn (sessionWarning path),
                        Sleep 200, Fetch (loginRequest s)]
         in case replies of
              Body t2 # replies' \<Rightarrow>
                (case extractSessFromHtml t2 of
                   Some v \<Rightarrow>
                     trace (snd result)
                       = trace s @ relogin
                         @ [Info (loggedInMessage v),
                            Fetch (requestFor (s\<lparr>sess := Some v\<rparr>) path meth data)]
                     \<and> fetchesOf (trace (snd result))
                       = fetchesOf (trace s)
                         @ [requestFor s path meth data, loginRequest s,
                            requestFor (s\<lparr>sess := Some v\<rparr>) path meth data]
                     \<and> fst result
                       = (case replies' of
                            Body t3 # rest \<Rightarrow> bodyResult parse path expectJson t3
                          | _ \<Rightarrow> Inl TransportError)
                 | None \<Rightarrow>
                     trace (snd result) = trace s @ relogin
                     \<and> fetchesOf (trace (snd result))
                       = fetchesOf (trace s) @ [requestFor s path meth data, loginRequest s]
                     \<and> fst result
                       = Inl (if looksLikeLoginHtml t2 then LoginNotAccepted else LoginNoSess))
            | _ \<Rightarrow>
                trace (snd result) = trace s @ relogin
                \<and> fetchesOf (trace (snd result))
                  = fetchesOf (trace s) @ [requestFor s path meth data, loginRequest s]
                \<and> fst result = Inl TransportError"
proof -
  let ?req1 = "requestFor s path meth data"
  let ?warn = "Warn (sessionWarning path)"
  let ?s1 = "s\<lparr>trace := trace s @ [Fetch ?req1], panel := replies\<rparr>"
  let ?s2 = "emit (Sleep 200) (emit ?warn ?s1)"
  have head: "request parse path meth data expectJson True s0 =
      (case login ?s2 of
         (Inl e, s3) \<Rightarrow> (Inl e, s3)
       | (Inr u', s3) \<Rightarrow> request parse path meth data expectJson False s3)"
    by (simp add: request_head[OF assms(1,2,3)] fetch_Body[OF assms(4)] assms(5))
  have s2: "host ?s2 = Some h" "panel ?s2 = replies"
      "trace ?s2 = trace s @ [Fetch ?req1, ?warn, Sleep 200]"
    using assms(2) by (simp_all add: emit_def)
  have lr: "loginRequest ?s2 = loginRequest s"
    by (rule loginRequest_cong) (simp_all add: emit_def)
  show ?thesis
  proof (cases "\<exists>t2 replies'. replies = Body t2 # replies'")
    case False
    then have n: "\<And>t rest. panel ?s2 \<noteq> Body t # rest"
      unfolding s2(2) by blast
    from login_unreachable[OF s2(1) assms(3) n]
    obtain s' where l: "login ?s2 = (Inl TransportError, s')"
        "trace s' = trace ?s2 @ [Fetch (loginRequest s)]"
      unfolding lr by blast
    have c: "\<And>f g. (case replies of Body t2 # replies' \<Rightarrow> f t2 replies' | _ \<Rightarrow> g) = g"
      using False by (auto split: list.splits fetch_result.splits)
    have res: "request parse path meth data expectJson True s0 = (Inl TransportError, s')"
      unfolding head l(1) by simp
    show ?thesis
      unfolding Let_def res c by (simp add: l(2) s2(3) fetchesOf_append)
  next
    case True
    then obtain t2 replies' where r: "replies = Body t2 # replies'"
      by blast
    have p2: "panel ?s2 = Body t2 # replies'"
      unfolding s2(2) by (rule r)
    show ?thesis
    proof (cases "extractSessFromHtml t2")
      case None
      from login_rejected[OF s2(1) assms(3) p2 None]
      obtain s' where l:
          "login ?s2 = (Inl (if looksLikeLoginHtml t2 then LoginNotAccepted else LoginNoSess), s')"
          "trace s' = trace ?s2 @ [Fetch (loginRequest s)]"
        unfolding lr by blast
      have res: "request parse path meth data expectJson True s0 =
          (Inl (if looksLikeLoginHtml t2 then LoginNotAccepted else LoginNoSess), s')"
        unfolding head l(1) by simp
      show ?thesis
        unfolding Let_def res r by (simp add: l(2) s2(3) None fetchesOf_append)
    next
      case (Some v)
      let ?info = "Info (loggedInMessage v)"
      let ?s3 = "?s2\<lparr>sess := Some v, panel := replies',
          trace := trace ?s2 @ [Fetch (loginRequest s), ?info]\<rparr>"
      have l: "login ?s2 = (Inr (), ?s3)"
        using login_accepted[OF s2(1) assms(3) p2 Some] unfolding lr .
      have "length v = 16"
        by (rule extractSess_len[OF Some])
      then have s3: "hasSess ?s3" "host ?s3 = Some h" "panel ?s3 = replies'"
          "trace ?s3 = trace s @ [Fetch ?req1, ?warn, Sleep 200, Fetch (loginRequest s), ?info]"
        using s2 by (auto simp: hasSess_def)
      have rq: "requestFor ?s3 path meth data = requestFor (s\<lparr>sess := Some v\<rparr>) path meth data"
        by (rule requestFor_cong) (simp_all add: emit_def)
      from retry_attempt[OF s3(1,2) assms(3), of parse path meth data expectJson]
      obtain s4 where a:
          "request parse path meth data expectJson False ?s3 =
             ((case panel ?s3 of Body t # rest \<Rightarrow> bodyResult parse path expectJson t
               | _ \<Rightarrow> Inl TransportError), s4)"
          "trace s4 = trace ?s3 @ [Fetch (requestFor (s\<lparr>sess := Some v\<rparr>) path meth data)]"
        unfolding rq by blast
      have res: "request parse path meth data expectJson True s0 =
          ((case replies' of Body t # rest \<Rightarrow> bodyResult parse path expectJson t
               | _ \<Rightarrow> Inl TransportError), s4)"
        unfolding head l using a(1) unfolding s3(3) by simp
      show ?thesis
        unfolding Let_def res r by (simp add: a(2) s3(4) Some fetchesOf_append)
    qed
  qed
qed

theorem relogin_once_retry_once_witness:
  "ensureLoggedIn staleClient = (Inr (), staleClient)
   \<and> host staleClient = Some ''panel'' \<and> ''panel'' \<noteq> []
   \<and> panel staleClient = Body loginPage # [Body loginAccepted, Body loginPage]
   \<and> looksLikeLoginHtml loginPage
   \<and> fetchesOf (trace (snd (request exampleParse ''/user/status.json'' ''POST''
                               (Some ''arsel=0'') True True staleClient)))
       = [\<lparr>req_url = ''http://panel/user/status.json'', req_method = ''POST'',
           req_body = Some ''sess=CDCDFDFF112F31DB&arsel=0''\<rparr>,
          \<lparr>req_url = ''http://panel/login.cgi'', req_method = ''POST'',
           req_body = Some ''lgname=user&lgpin=1234''\<rparr>,
          \<lparr>req_url = ''http://panel/user/status.json'', req_method = ''POST'',
           req_body = Some ''sess=A1B2C3D4E5F60718&arsel=0''\<rparr>]
   \<and> fst (request exampleParse ''/user/status.json'' ''POST'' (Some ''arsel=0'') True True
          staleClient) = Inl (InvalidJSON ''/user/status.json'' loginPage)"
proof -
  have h: "ensureLoggedIn staleClient = (Inr (), staleClient)"
      "host staleClient = Some ''panel''" "''panel'' \<noteq> []"
      "panel staleClient = Body loginPage # [Body loginAccepted, Body loginPage]"
      "looksLikeLoginHtml loginPage"
    by code_simp+
  have e: "extractSessFromHtml loginAccepted = Some ''A1B2C3D4E5F60718''"
    by code_simp
  have b: "bodyResult exampleParse ''/user/status.json'' True loginPage
      = Inl (InvalidJSON ''/user/status.json'' loginPage)"
    by code_simp
  have q: "fetchesOf (trace staleClient)
         @ [requestFor staleClient ''/user/status.json'' ''POST'' (Some ''arsel=0''),
            loginRequest staleClient,
            requestFor (staleClient\<lparr>sess := Some ''A1B2C3D4E5F60718''\<rparr>)
              ''/user/status.json'' ''POST'' (Some ''arsel=0'')]
       = [\<lparr>req_url = ''http://panel/user/status.json'', req_method = ''POST'',
           req_body = Some ''sess=CDCDFDFF112F31DB&arsel=0''\<rparr>,
          \<lparr>req_url = ''http://panel/login.cgi'', req_method = ''POST'',
           req_body = Some ''lgname=user&lgpin=1234''\<rparr>,
          \<lparr>req_url = ''http://panel/user/status.json'', req_method = ''POST'',
           req_body = Some ''sess=A1B2C3D4E5F60718&arsel=0''\<rparr>]"
    by code_simp
  note t = relogin_once_retry_once[OF h, of exampleParse "''/user/status.json''" "''POST''"
      "Some ''arsel=0''" True, unfolded Let_def list.simps fetch_result.simps e option.simps]
  from t have "fetchesOf (trace (snd (request exampleParse ''/user/status.json'' ''POST''
                               (Some ''arsel=0'') True True staleClient)))
       = fetchesOf (trace staleClient)
         @ [requestFor staleClient ''/user/status.json'' ''POST'' (Some ''arsel=0''),
            loginRequest staleClient,
            requestFor (staleClient\<lparr>sess := Some ''A1B2C3D4E5F60718''\<rparr>)
              ''/user/status.json'' ''POST'' (Some ''arsel=0'')]
     \<and> fst (request exampleParse ''/user/status.json'' ''POST'' (Some ''arsel=0'')
              True True staleClient)
       = bodyResult exampleParse ''/user/status.json'' True loginPage"
    by blast
  with h b q show ?thesis
    by metis
qed

section \<open>Properties of login under overlapping calls\<close>

text \<open>The two halves, with the panel's next reply in between, are \<open>login\<close>.\<close>

lemma login_two_halves:
  "login s =
     (case loginStart s of
        (Inl e, s1) \<Rightarrow> (Inl e, s1)
      | (Inr req, s1) \<Rightarrow>
          (case panel s1 of
             [] \<Rightarrow> (Inl TransportError, s1)
           | r # rest \<Rightarrow>
               (case loginFinish r (s1\<lparr>panel := rest\<rparr>) of
                  (Resolved, s2) \<Rightarrow> (Inr (), s2)
                | (Rejected e, s2) \<Rightarrow> (Inl e, s2))))"
  by (simp add: login_def loginStart_def loginFinish_def fetch_def emit_def Let_def
      split: sum.splits list.splits fetch_result.splits option.splits)

lemma loginStart_sends:
  assumes "host s = Some h" "h \<noteq> []"
  shows "\<exists>req. loginStart s = (Inr req, s\<lparr>sess := None, trace := trace s @ [Fetch req]\<rparr>)
           \<and> req_url req = ''http://'' @ h @ ''/login.cgi''"
  using assms by (simp add: loginStart_def baseUrl_def emit_def Let_def)

lemma first_call:
  assumes "idle st" "host (api st) = Some h" "h \<noteq> []"
  shows "\<exists>req. step (Call c) st =
      st\<lparr>api := (api st)\<lparr>sess := None, trace := trace (api st) @ [Fetch req]\<rparr>,
         loggingIn := Some (nextPromise st), nextPromise := nextPromise st + 1,
         waiting := [(c, nextPromise st)]\<rparr>
      \<and> req_url req = ''http://'' @ h @ ''/login.cgi''"
proof -
  from loginStart_sends[OF assms(2,3)] obtain req where
    r: "loginStart (api st) = (Inr req, (api st)\<lparr>sess := None, trace := trace (api st) @ [Fetch req]\<rparr>)"
      "req_url req = ''http://'' @ h @ ''/login.cgi''"
    by blast
  show ?thesis
    using assms(1) r by (intro exI[of _ req]) (simp add: idle_def)
qed

lemma joining_calls:
  assumes "\<not> hasSess (api st)" "loggingIn st = Some p"
  shows "calls cs st = st\<lparr>waiting := waiting st @ map (\<lambda>c. (c, p)) cs\<rparr>"
  using assms
proof (induction cs arbitrary: st)
  case Nil
  then show ?case by (simp add: calls_def)
next
  case (Cons c cs)
  have 1: "step (Call c) st = st\<lparr>waiting := waiting st @ [(c, p)]\<rparr>"
    using Cons.prems by simp
  have "calls (c # cs) st = calls cs (step (Call c) st)"
    by (simp add: calls_def)
  also have "\<dots> = (st\<lparr>waiting := waiting st @ [(c, p)]\<rparr>)
      \<lparr>waiting := waiting (st\<lparr>waiting := waiting st @ [(c, p)]\<rparr>) @ map (\<lambda>c. (c, p)) cs\<rparr>"
    unfolding 1 using Cons.prems by (intro Cons.IH) simp_all
  finally show ?case by simp
qed

lemma loginFinish_sess:
  "(fst (loginFinish r s) = Resolved \<longrightarrow> hasSess (snd (loginFinish r s)))
   \<and> (fst (loginFinish r s) \<noteq> Resolved \<longrightarrow> snd (loginFinish r s) = s)
   \<and> fetchesOf (trace (snd (loginFinish r s))) = fetchesOf (trace s)"
  by (auto simp: loginFinish_def emit_def hasSess_def fetchesOf_append
      split: fetch_result.splits option.splits dest!: extractSess_len)

text \<open>
  C2: login is single-flight.  On a client with a host, without a session token and with
  no login in flight, any number \<open>N \<ge> 1\<close> of overlapping calls of \<open>ensureLoggedIn\<close> send
  exactly one login request; until the reply arrives no caller has returned and all wait
  for the same promise; when the reply arrives no further request is sent and all callers
  finish together with the outcome of that one attempt: all return when it succeeded (and
  the token is then set), all throw its error when it failed.
\<close>

theorem login_single_flight:
  assumes "idle st" "host (api st) = Some h" "h \<noteq> []" "cs \<noteq> []"
  shows "let st1 = calls cs st;
             st2 = step (Reply r) st1;
             out = fst (loginFinish r (api st1))
         in map req_url (fetchesOf (trace (api st1)))
              = map req_url (fetchesOf (trace (api st))) @ [''http://'' @ h @ ''/login.cgi'']
          \<and> finished st1 = finished st
          \<and> waiting st1 = map (\<lambda>c. (c, nextPromise st)) cs
          \<and> fetchesOf (trace (api st2)) = fetchesOf (trace (api st1))
          \<and> finished st2 = finished st @ map (\<lambda>c. (c, out)) cs
          \<and> waiting st2 = []
          \<and> loggingIn st2 = None
          \<and> (out = Resolved \<longrightarrow> hasSess (api st2))
          \<and> (out \<noteq> Resolved \<longrightarrow> \<not> hasSess (api st2))"
proof -
  from assms(4) obtain c rest where cs: "cs = c # rest"
    by (cases cs) auto
  from first_call[OF assms(1,2,3), of c] obtain req where
    f: "step (Call c) st =
      st\<lparr>api := (api st)\<lparr>sess := None, trace := trace (api st) @ [Fetch req]\<rparr>,
         loggingIn := Some (nextPromise st), nextPromise := nextPromise st + 1,
         waiting := [(c, nextPromise st)]\<rparr>"
    and u: "req_url req = ''http://'' @ h @ ''/login.cgi''"
    by blast
  let ?a = "(api st)\<lparr>sess := None, trace := trace (api st) @ [Fetch req]\<rparr>"
  let ?p = "nextPromise st"
  let ?s = "st\<lparr>api := ?a, loggingIn := Some ?p, nextPromise := ?p + 1, waiting := [(c, ?p)]\<rparr>"
  have j: "calls rest ?s = ?s\<lparr>waiting := waiting ?s @ map (\<lambda>c. (c, ?p)) rest\<rparr>"
    by (rule joining_calls) (simp_all add: hasSess_def)
  have st1: "calls cs st = st\<lparr>api := ?a, loggingIn := Some ?p, nextPromise := ?p + 1,
      waiting := map (\<lambda>c. (c, ?p)) cs\<rparr>"
  proof -
    have "calls cs st = calls rest (step (Call c) st)"
      by (simp add: cs calls_def)
    then show ?thesis
      unfolding f j by (simp add: cs)
  qed
  define out where "out = fst (loginFinish r ?a)"
  define a2 where "a2 = snd (loginFinish r ?a)"
  have lf: "loginFinish r ?a = (out, a2)"
    by (simp add: out_def a2_def)
  have all: "filter (\<lambda>w. snd w = ?p) (map (\<lambda>c. (c, ?p)) cs) = map (\<lambda>c. (c, ?p)) cs"
      "filter (\<lambda>w. snd w \<noteq> ?p) (map (\<lambda>c. (c, ?p)) cs) = []"
    by (induction cs) simp_all
  have st2: "step (Reply r) (calls cs st) =
      st\<lparr>api := a2, loggingIn := None, nextPromise := ?p + 1, waiting := [],
         finished := finished st @ map (\<lambda>c. (c, out)) cs\<rparr>"
    unfolding st1 by (simp add: lf all comp_def)
  have nos: "\<not> hasSess ?a"
    by (simp add: hasSess_def)
  from loginFinish_sess[of r ?a]
  have resolved: "out = Resolved \<longrightarrow> hasSess a2"
    and rejected: "out \<noteq> Resolved \<longrightarrow> \<not> hasSess a2"
    and quiet: "fetchesOf (trace a2) = fetchesOf (trace ?a)"
    using nos unfolding out_def a2_def by auto
  have api1: "api (calls cs st) = ?a"
    by (simp add: st1)
  show ?thesis
    unfolding Let_def api1 out_def[symmetric]
    unfolding st2
    using resolved rejected quiet
    by (simp add: st1 fetchesOf_append u)
qed

theorem login_single_flight_witness:
  "idle loggedOut \<and> host (api loggedOut) = Some ''panel'' \<and> ''panel'' \<noteq> []
   \<and> [1, 2, 3] \<noteq> ([] :: nat list)
   \<and> map req_url (fetchesOf (trace (api (calls [1, 2, 3] loggedOut))))
       = [''http://'' @ ''panel'' @ ''/login.cgi'']
   \<and> finished (calls [1, 2, 3] loggedOut) = []
   \<and> finished (step (Reply (Body loginAccepted)) (calls [1, 2, 3] loggedOut))
       = [(1, Resolved), (2, Resolved), (3, Resolved)]
   \<and> hasSess (api (step (Reply (Body loginAccepted)) (calls [1, 2, 3] loggedOut)))
   \<and> finished (step (Reply (Body loginPage)) (calls [1, 2, 3] loggedOut))
       = [(1, Rejected LoginNotAccepted), (2, Rejected LoginNotAccepted),
          (3, Rejected LoginNotAccepted)]"
proof -
  have i: "idle loggedOut" "host (api loggedOut) = Some ''panel''"
    by code_simp+
  have n: "''panel'' \<noteq> []" "[1, 2, 3] \<noteq> ([] :: nat list)"
    by simp_all
  have z: "fetchesOf (trace (api loggedOut)) = []" "finished loggedOut = []"
    by code_simp+
  have ok: "fst (loginFinish (Body loginAccepted) (api (calls [1, 2, 3] loggedOut))) = Resolved"
    by code_simp
  have no: "fst (loginFinish (Body loginPage) (api (calls [1, 2, 3] loggedOut)))
      = Rejected LoginNotAccepted"
    by code_simp
  from login_single_flight[OF i n, of "Body loginAccepted"]
  have a: "map req_url (fetchesOf (trace (api (calls [1, 2, 3] loggedOut))))
       = [''http://'' @ ''panel'' @ ''/login.cgi'']"
      "finished (calls [1, 2, 3] loggedOut) = []"
      "finished (step (Reply (Body loginAccepted)) (calls [1, 2, 3] loggedOut))
       = [(1, Resolved), (2, Resolved), (3, Resolved)]"
      "hasSess (api (step (Reply (Body loginAccepted)) (calls [1, 2, 3] loggedOut)))"
    unfolding Let_def ok z by simp_all
  from login_single_flight[OF i n, of "Body loginPage"]
  have b: "finished (step (Reply (Body loginPage)) (calls [1, 2, 3] loggedOut))
       = [(1, Rejected LoginNotAccepted), (2, Rejected LoginNotAccepted),
          (3, Rejected LoginNotAccepted)]"
    unfolding Let_def no z by simp
  from i n a b show ?thesis
    by blast
qed

end
